theory Spec2Isabelle
  imports Complex_Main
begin

section \<open>shared/utils/location\_utils.py\<close>

text \<open>
  A Python \<open>str\<close> is a sequence of code points. A name is modelled as a \<open>string\<close> whose
  characters are the code points below 256, one \<open>char\<close> per code point; on these the
  functions below are the ones of Python's \<open>str\<close>, \<open>unicodedata\<close> and \<open>re\<close>.
\<close>

subsection \<open>Character classes and \<open>str\<close> methods\<close>

text \<open>\<open>str.isspace\<close>, which is also \<open>\s\<close> of a \<open>str\<close> pattern.\<close>

definition is_space :: "char \<Rightarrow> bool" where
  "is_space c = (c \<in> set [CHR 0x09, CHR 0x0A, CHR 0x0B, CHR 0x0C, CHR 0x0D, CHR 0x1C,
                          CHR 0x1D, CHR 0x1E, CHR 0x1F, CHR 0x20, CHR 0x85, CHR 0xA0])"

text \<open>\<open>\d\<close>: the decimal digits.\<close>

definition is_digit :: "char \<Rightarrow> bool" where
  "is_digit c = (c \<in> set ''0123456789'')"

text \<open>\<open>\w\<close>: the alphanumeric code points and the underscore.\<close>

definition is_word :: "char \<Rightarrow> bool" where
  "is_word c =
     (let n = (of_char c :: nat) in
      (48 \<le> n \<and> n \<le> 57) \<or> (65 \<le> n \<and> n \<le> 90) \<or> n = 95 \<or> (97 \<le> n \<and> n \<le> 122) \<or>
      n \<in> set [170, 178, 179, 181, 185, 186, 188, 189, 190] \<or>
      (192 \<le> n \<and> n \<noteq> 215 \<and> n \<noteq> 247))"

text \<open>\<open>str.lower\<close>, one code point at a time.\<close>

definition lower_char :: "char \<Rightarrow> char" where
  "lower_char c =
     (let n = (of_char c :: nat) in
      if (65 \<le> n \<and> n \<le> 90) \<or> (192 \<le> n \<and> n \<le> 222 \<and> n \<noteq> 215)
      then char_of (n + 32) else c)"

definition lower :: "string \<Rightarrow> string" where
  "lower s = map lower_char s"

text \<open>\<open>str.strip()\<close>\<close>

definition strip :: "string \<Rightarrow> string" where
  "strip s = rev (dropWhile is_space (rev (dropWhile is_space s)))"

text \<open>\<open>str.split(sep)\<close> for a separator of one character.\<close>

fun split_on :: "char \<Rightarrow> string \<Rightarrow> string list" where
  "split_on sep [] = [[]]"
| "split_on sep (c # cs) =
     (if c = sep then [] # split_on sep cs
      else (case split_on sep cs of
              [] \<Rightarrow> [[c]]
            | p # ps \<Rightarrow> (c # p) # ps))"

text \<open>\<open>str.split()\<close>: the maximal runs of characters that are not whitespace.\<close>

fun split_ws_acc :: "string \<Rightarrow> string \<Rightarrow> string list" where
  "split_ws_acc cur [] = (if cur = [] then [] else [rev cur])"
| "split_ws_acc cur (c # cs) =
     (if is_space c then (if cur = [] then split_ws_acc [] cs else rev cur # split_ws_acc [] cs)
      else split_ws_acc (c # cur) cs)"

definition split_ws :: "string \<Rightarrow> string list" where
  "split_ws s = split_ws_acc [] s"

text \<open>\<open>x in y\<close> for strings.\<close>

fun is_substring :: "string \<Rightarrow> string \<Rightarrow> bool" where
  "is_substring x [] = (x = [])"
| "is_substring x (c # cs) = (take (length x) (c # cs) = x \<or> is_substring x cs)"

text \<open>
  \<open>_remove_accents\<close>: the canonical decomposition of a letter with an accent is the
  letter followed by combining marks (category \<open>Mn\<close>), which the filter drops; no
  code point below 256 is itself of that category.
\<close>

definition remove_accent :: "char \<Rightarrow> char" where
  "remove_accent c =
     (let n = (of_char c :: nat) in
      if 192 \<le> n \<and> n \<le> 197 then CHR ''A''
      else if n = 199 then CHR ''C''
      else if 200 \<le> n \<and> n \<le> 203 then CHR ''E''
      else if 204 \<le> n \<and> n \<le> 207 then CHR ''I''
      else if n = 209 then CHR ''N''
      else if 210 \<le> n \<and> n \<le> 214 then CHR ''O''
      else if 217 \<le> n \<and> n \<le> 220 then CHR ''U''
      else if n = 221 then CHR ''Y''
      else if 224 \<le> n \<and> n \<le> 229 then CHR ''a''
      else if n = 231 then CHR ''c''
      else if 232 \<le> n \<and> n \<le> 235 then CHR ''e''
      else if 236 \<le> n \<and> n \<le> 239 then CHR ''i''
      else if n = 241 then CHR ''n''
      else if 242 \<le> n \<and> n \<le> 246 then CHR ''o''
      else if 249 \<le> n \<and> n \<le> 252 then CHR ''u''
      else if n = 253 \<or> n = 255 then CHR ''y''
      else c)"

definition remove_accents :: "string \<Rightarrow> string" where
  "remove_accents text' = map remove_accent text'"

subsection \<open>The regular expressions of the module\<close>

text \<open>
  The patterns use literals (matched without regard to case under \<open>re.IGNORECASE\<close>),
  character classes, greedy repetition of a class, sequence, alternation, \<open>\b\<close>, \<open>^\<close>
  and \<open>$\<close>. A match position is the character before it (none at the start) and the
  text after it; \<open>rmatch\<close> lists the positions at which a pattern can end, in the
  order in which the backtracking matcher tries them.
\<close>

datatype char_class = Space | Digit | Quote | CommaHyphenSpace

fun in_class :: "char_class \<Rightarrow> char \<Rightarrow> bool" where
  "in_class Space c = is_space c"
| "in_class Digit c = is_digit c"
| "in_class Quote c = (c = CHR 0x22 \<or> c = CHR 0x27)"
| "in_class CommaHyphenSpace c = (c = CHR '','' \<or> c = CHR ''-'' \<or> is_space c)"

datatype regex =
    Lit string
  | One char_class
  | Many0 char_class
  | Many1 char_class
  | Seq regex regex
  | Alt regex regex
  | WordBoundary
  | Bos
  | Eos

type_synonym position = "char option \<times> string"

definition advance :: "position \<Rightarrow> nat \<Rightarrow> position" where
  "advance pos n =
     (if n = 0 then pos else (Some (snd pos ! (n - 1)), drop n (snd pos)))"

definition word_at :: "char option \<Rightarrow> bool" where
  "word_at c = (case c of None \<Rightarrow> False | Some x \<Rightarrow> is_word x)"

definition next_char :: "string \<Rightarrow> char option" where
  "next_char s = (case s of [] \<Rightarrow> None | c # _ \<Rightarrow> Some c)"

fun rmatch :: "regex \<Rightarrow> position \<Rightarrow> position list" where
  "rmatch (Lit l) pos =
     (if length l \<le> length (snd pos) \<and> lower (take (length l) (snd pos)) = l
      then [advance pos (length l)] else [])"
| "rmatch (One k) pos =
     (case snd pos of [] \<Rightarrow> [] | c # _ \<Rightarrow> if in_class k c then [advance pos 1] else [])"
| "rmatch (Many0 k) pos =
     map (advance pos) (rev [0 ..< Suc (length (takeWhile (in_class k) (snd pos)))])"
| "rmatch (Many1 k) pos =
     map (advance pos) (rev [1 ..< Suc (length (takeWhile (in_class k) (snd pos)))])"
| "rmatch (Seq r1 r2) pos = concat (map (rmatch r2) (rmatch r1 pos))"
| "rmatch (Alt r1 r2) pos = rmatch r1 pos @ rmatch r2 pos"
| "rmatch WordBoundary pos =
     (if word_at (fst pos) \<noteq> word_at (next_char (snd pos)) then [pos] else [])"
| "rmatch Bos pos = (if fst pos = None then [pos] else [])"
| "rmatch Eos pos = (if snd pos = [] \<or> snd pos = [CHR 0x0A] then [pos] else [])"

text \<open>
  \<open>re.sub(pattern, repl, text)\<close>: the text is scanned from the left; where the pattern
  matches, the first match the matcher finds is replaced and the scan goes on behind
  it; an empty match leaves the character in place. \<open>prev\<close> is the character before
  the scan position.
\<close>

function re_sub_from :: "regex \<Rightarrow> string \<Rightarrow> char option \<Rightarrow> string \<Rightarrow> string" where
  "re_sub_from r repl prev [] = (case rmatch r (prev, []) of [] \<Rightarrow> [] | _ \<Rightarrow> repl)"
| "re_sub_from r repl prev (c # cs) =
     (case rmatch r (prev, c # cs) of
        [] \<Rightarrow> c # re_sub_from r repl (Some c) cs
      | (prev', rest) # _ \<Rightarrow>
          if length rest \<le> length cs then repl @ re_sub_from r repl prev' rest
          else repl @ c # re_sub_from r repl (Some c) cs)"
  by pat_completeness auto
termination
  by (relation "measure (\<lambda>(r, repl, prev, s). length s)") auto

definition re_sub :: "regex \<Rightarrow> string \<Rightarrow> string \<Rightarrow> string" where
  "re_sub r repl text' = re_sub_from r repl None text'"

fun alternatives :: "string list \<Rightarrow> regex" where
  "alternatives [] = Lit []"
| "alternatives [w] = Lit w"
| "alternatives (w # ws) = Alt (Lit w) (alternatives ws)"

text \<open>\<open>LOCATION_PATTERNS\<close>, in the order of the list.\<close>

definition LOCATION_PATTERNS :: "regex list" where
  "LOCATION_PATTERNS =
     [Seq WordBoundary (Seq (alternatives
        [''area'', ''estate'', ''phase'', ''extension'', ''ext'', ''street'', ''st'', ''road'',
         ''rd'', ''avenue'', ''ave'', ''close'', ''crescent'', ''cres'']) WordBoundary),
      Seq WordBoundary (Seq (Alt (Seq (Lit ''phase'') (Seq (Many0 Space) (Many1 Digit)))
                                 (Seq (Lit ''ext'') (Seq (Many0 Space) (Many1 Digit))))
                            WordBoundary),
      Seq WordBoundary (Seq (Lit ''lga'') WordBoundary)]"

text \<open>
  \<open>SEPARATORS\<close> is a Python set of strings. The order in which \<open>for sep in
  self.SEPARATORS\<close> visits it is the order of the hash table, which differs from one
  run of the interpreter to the next; the functions that iterate over the set take
  that order as a parameter.
\<close>

definition SEPARATORS :: "char set" where
  "SEPARATORS = {CHR '','', CHR ''-'', CHR ''/'', CHR 0x5C, CHR ''|'', CHR '';''}"

definition separator_order :: "char list \<Rightarrow> bool" where
  "separator_order seps = (set seps = SEPARATORS \<and> distinct seps)"

subsection \<open>\<open>LocationUtils\<close>\<close>

fun extract_primary_location :: "char list \<Rightarrow> string \<Rightarrow> string" where
  "extract_primary_location [] location = location"
| "extract_primary_location (sep # seps) location =
     (if sep \<in> set location
      then (case filter (\<lambda>p. p \<noteq> []) (map strip (split_on sep location)) of
              [] \<Rightarrow> extract_primary_location seps location
            | p # _ \<Rightarrow> p)
      else extract_primary_location seps location)"

definition remove_location_patterns :: "string \<Rightarrow> string" where
  "remove_location_patterns location =
     strip (re_sub (Seq WordBoundary (Seq (Many1 Digit) WordBoundary)) []
              (fold (\<lambda>pattern loc. re_sub pattern [] loc) LOCATION_PATTERNS location))"

definition normalize :: "char list \<Rightarrow> string \<Rightarrow> string" where
  "normalize seps location =
     (if location = [] then []
      else
        let normalized = strip (lower location);
            normalized = remove_accents normalized;
            normalized = re_sub (Many1 Space) '' '' normalized;
            normalized = re_sub (One Quote) [] normalized;
            primary_location = extract_primary_location seps normalized;
            primary_location = remove_location_patterns primary_location;
            primary_location =
              re_sub (Alt (Seq Bos (Many1 CommaHyphenSpace)) (Seq (Many1 CommaHyphenSpace) Eos))
                [] primary_location
        in strip primary_location)"

subsection \<open>\<open>difflib.SequenceMatcher(None, a, b).ratio()\<close>\<close>

text \<open>
  The standard library's matcher, with no junk function and \<open>autojunk\<close> on: in a
  second sequence of 200 elements or more, an element that occurs more than
  \<open>n // 100 + 1\<close> times is popular and is left out of the index \<open>b2j\<close>.
\<close>

definition popular :: "string \<Rightarrow> char \<Rightarrow> bool" where
  "popular b x = (length b \<ge> 200 \<and> count_list b x > length b div 100 + 1)"

definition b2j :: "string \<Rightarrow> char \<Rightarrow> nat list" where
  "b2j b x = (if popular b x then [] else filter (\<lambda>j. b ! j = x) [0 ..< length b])"

type_synonym best = "nat \<times> nat \<times> nat"

text \<open>
  The inner loop of \<open>find_longest_match\<close> for one \<open>i\<close>: \<open>j2len\<close> is the row before,
  the result the new row and the best block so far. A key that is absent reads as 0,
  and so does the key \<open>j - 1\<close> of \<open>j = 0\<close>.
\<close>

fun flm_row ::
  "nat \<Rightarrow> (nat \<Rightarrow> nat) \<Rightarrow> nat list \<Rightarrow> (nat \<Rightarrow> nat) \<times> best \<Rightarrow> (nat \<Rightarrow> nat) \<times> best" where
  "flm_row i j2len [] acc = acc"
| "flm_row i j2len (j # js) (newj2len, (besti, bestj, bestsize)) =
     (let k = (if j = 0 then 0 else j2len (j - 1)) + 1;
          newj2len' = newj2len(j := k)
      in if k > bestsize
         then flm_row i j2len js (newj2len', (i + 1 - k, j + 1 - k, k))
         else flm_row i j2len js (newj2len', (besti, bestj, bestsize)))"

fun flm_rows ::
  "string \<Rightarrow> string \<Rightarrow> nat \<Rightarrow> nat \<Rightarrow> nat list \<Rightarrow> (nat \<Rightarrow> nat) \<times> best \<Rightarrow> (nat \<Rightarrow> nat) \<times> best" where
  "flm_rows a b blo bhi [] acc = acc"
| "flm_rows a b blo bhi (i # is) (j2len, bst) =
     flm_rows a b blo bhi is
       (flm_row i j2len (filter (\<lambda>j. blo \<le> j \<and> j < bhi) (b2j b (a ! i))) ((\<lambda>_. 0), bst))"

function extend_left :: "string \<Rightarrow> string \<Rightarrow> nat \<Rightarrow> nat \<Rightarrow> best \<Rightarrow> best" where
  "extend_left a b alo blo (besti, bestj, bestsize) =
     (if besti > alo \<and> bestj > blo \<and> a ! (besti - 1) = b ! (bestj - 1)
      then extend_left a b alo blo (besti - 1, bestj - 1, bestsize + 1)
      else (besti, bestj, bestsize))"
  by pat_completeness auto
termination
  by (relation "measure (\<lambda>(a, b, alo, blo, besti, bestj, bestsize). besti)") auto

function extend_right :: "string \<Rightarrow> string \<Rightarrow> nat \<Rightarrow> nat \<Rightarrow> best \<Rightarrow> best" where
  "extend_right a b ahi bhi (besti, bestj, bestsize) =
     (if besti + bestsize < ahi \<and> bestj + bestsize < bhi \<and>
         a ! (besti + bestsize) = b ! (bestj + bestsize)
      then extend_right a b ahi bhi (besti, bestj, bestsize + 1)
      else (besti, bestj, bestsize))"
  by pat_completeness auto
termination
  by (relation "measure (\<lambda>(a, b, ahi, bhi, besti, bestj, bestsize). ahi - (besti + bestsize))")
    auto

text \<open>
  \<open>find_longest_match(alo, ahi, blo, bhi)\<close>. No element is junk, so the two loops that
  extend the block by junk do nothing.
\<close>

definition find_longest_match :: "string \<Rightarrow> string \<Rightarrow> nat \<Rightarrow> nat \<Rightarrow> nat \<Rightarrow> nat \<Rightarrow> best" where
  "find_longest_match a b alo ahi blo bhi =
     extend_right a b ahi bhi
       (extend_left a b alo blo
          (snd (flm_rows a b blo bhi [alo ..< ahi] ((\<lambda>_. 0), (alo, blo, 0)))))"

text \<open>
  \<open>get_matching_blocks\<close> takes the longest block of a region, then works on the
  regions to its left and to its right. The fuel bounds the depth of that search; a
  region of \<open>a\<close> is at most \<open>length a\<close> wide and every level removes at least one
  element of it, so more fuel than the width of the region changes nothing (lemma
  \<open>matching_sizes_fuel\<close>). The ratio needs the sizes of the blocks only, which
  sorting the blocks and merging adjacent ones leave as they are.
\<close>

fun matching_sizes :: "nat \<Rightarrow> string \<Rightarrow> string \<Rightarrow> nat \<Rightarrow> nat \<Rightarrow> nat \<Rightarrow> nat \<Rightarrow> nat list" where
  "matching_sizes 0 a b alo ahi blo bhi = []"
| "matching_sizes (Suc fuel) a b alo ahi blo bhi =
     (case find_longest_match a b alo ahi blo bhi of
        (i, j, k) \<Rightarrow>
          if k = 0 then []
          else (if alo < i \<and> blo < j then matching_sizes fuel a b alo i blo j else []) @
               [k] @
               (if i + k < ahi \<and> j + k < bhi
                then matching_sizes fuel a b (i + k) ahi (j + k) bhi else []))"

definition ratio :: "string \<Rightarrow> string \<Rightarrow> real" where
  "ratio a b =
     (let matches = sum_list (matching_sizes (Suc (length a)) a b 0 (length a) 0 (length b));
          length' = length a + length b
      in if length' \<noteq> 0 then 2 * real matches / real length' else 1)"

subsection \<open>\<open>similarity\<close>\<close>

definition similarity :: "char list \<Rightarrow> string \<Rightarrow> string \<Rightarrow> real" where
  "similarity seps loc1 loc2 =
     (let norm1 = normalize seps loc1;
          norm2 = normalize seps loc2
      in if norm1 = [] \<or> norm2 = [] then 0
         else
           let base_similarity = ratio norm1 norm2;
               base_similarity =
                 (if is_substring norm1 norm2 \<or> is_substring norm2 norm1
                  then max base_similarity (9 / 10) else base_similarity);
               tokens1 = remdups (split_ws norm1);
               tokens2 = remdups (split_ws norm2)
           in if tokens1 \<noteq> [] \<and> tokens2 \<noteq> []
              then
                let token_overlap =
                      real (length (filter (\<lambda>t. t \<in> set tokens2) tokens1)) /
                      real (min (length tokens1) (length tokens2))
                in max base_similarity (token_overlap * (95 / 100))
              else base_similarity)"

section \<open>Exceptions and the session\<close>

text \<open>
  The services raise and catch Python exceptions. An exception is a value; a call
  returns either an exception (\<open>Inl\<close>) or a result (\<open>Inr\<close>), together with the session
  it leaves behind. \<open>SQLAlchemyError\<close> stands for every exception of the ORM
  (\<open>IntegrityError\<close> on a unique-key violation, \<open>MultipleResultsFound\<close> of
  \<open>one_or_none\<close>, any other driver error); \<open>OtherException\<close> for an exception that is
  neither an ORM error nor one of the application's own classes.
\<close>

datatype sa_error = IntegrityError | MultipleResultsFound | OperationalError

datatype exn =
    SQLAlchemyError sa_error
  | DatabaseException string
  | AppException string
  | ValueError string
  | ValidationError
  | OtherException

text \<open>What the store answers to one round trip (a query, a flush, a commit, a refresh).\<close>

datatype outcome = Succeeds | RaisesSql sa_error | RaisesOther

type_synonym point = "real \<times> real"

text \<open>
  A row of \<open>geo_buckets\<close> (models/geo_bucket.py with its mixins). A point is
  \<open>(lng, lat)\<close>, as \<open>Point(lng, lat)\<close> builds it; a timestamp is a clock reading.
\<close>

record geo_bucket =
  bucket_id :: int
  h3_index :: int
  h3_resolution :: int
  parent_h3 :: "int option"
  canonical_name :: "string option"
  canonical_name_normalized :: "string option"
  center_point :: "point option"
  hexagon_boundary :: "point list option"
  property_count :: int
  created_datetime :: nat
  updated_datetime :: "nat option"

text \<open>A row of \<open>properties\<close> (models/property.py); \<open>attributes\<close> is an opaque JSON text.\<close>

record property =
  property_id :: nat
  title :: string
  location_name :: string
  location_name_normalized :: string
  coordinates :: point
  h3_index_r8 :: int
  h3_index_r9 :: int
  attributes :: "string option"
  geo_bucket_id :: "int option"
  property_created :: nat
  property_updated :: "nat option"

record database =
  geo_buckets :: "geo_bucket list"
  properties :: "property list"

text \<open>
  An object handed to \<open>session.add\<close>: a new bucket, a new property, or a loaded bucket
  whose \<open>property_count\<close> was assigned.
\<close>

datatype pending_write =
    InsertBucket geo_bucket
  | InsertProperty property
  | UpdateBucketCount geo_bucket

text \<open>
  The \<open>AsyncSession\<close> and what surrounds it: \<open>committed\<close> is what every other
  connection can see, \<open>pending\<close> what this session's transaction sees (committed rows
  plus flushed writes), \<open>unit_of_work\<close> the added objects not yet flushed,
  \<open>transaction_level\<close> the context variable of database/transaction.py, \<open>outcomes\<close> the
  answers of the store to the coming round trips (none left: it succeeds), \<open>bucket_seq\<close>
  the sequence behind \<open>geo_buckets.id\<close>, \<open>ulid_seq\<close> the source of fresh ULIDs and
  \<open>clock\<close> the value of \<open>now()\<close>. \<open>commit_count\<close> and \<open>rollback_count\<close> count the calls
  of \<open>session.commit\<close> that succeeded and of \<open>session.rollback\<close>.
\<close>

record session =
  committed :: database
  pending :: database
  unit_of_work :: "pending_write list"
  transaction_level :: nat
  outcomes :: "outcome list"
  bucket_seq :: int
  ulid_seq :: nat
  clock :: nat
  commit_count :: nat
  rollback_count :: nat

type_synonym 'a io = "session \<Rightarrow> (exn + 'a) \<times> session"

definition return_io :: "'a \<Rightarrow> 'a io" where
  "return_io x s = (Inr x, s)"

definition raise_io :: "exn \<Rightarrow> 'a io" where
  "raise_io e s = (Inl e, s)"

definition bind_io :: "'a io \<Rightarrow> ('a \<Rightarrow> 'b io) \<Rightarrow> 'b io" where
  "bind_io m f s = (case m s of (Inl e, s') \<Rightarrow> (Inl e, s') | (Inr x, s') \<Rightarrow> f x s')"

text \<open>\<open>try: m except Exception as e: h e\<close>\<close>

definition try_except :: "'a io \<Rightarrow> (exn \<Rightarrow> 'a io) \<Rightarrow> 'a io" where
  "try_except m h s = (case m s of (Inl e, s') \<Rightarrow> h e s' | (Inr x, s') \<Rightarrow> (Inr x, s'))"

text \<open>A call into a library that returns nothing when the library raises.\<close>

definition library_call :: "'a option \<Rightarrow> 'a io" where
  "library_call r = (case r of None \<Rightarrow> raise_io OtherException | Some x \<Rightarrow> return_io x)"

definition in_transaction :: "session \<Rightarrow> bool" where
  "in_transaction s = (transaction_level s > 0)"

definition round_trip :: "unit io" where
  "round_trip s =
     (case outcomes s of
        [] \<Rightarrow> (Inr (), s)
      | Succeeds # os \<Rightarrow> (Inr (), s\<lparr>outcomes := os\<rparr>)
      | RaisesSql k # os \<Rightarrow> (Inl (SQLAlchemyError k), s\<lparr>outcomes := os\<rparr>)
      | RaisesOther # os \<Rightarrow> (Inl OtherException, s\<lparr>outcomes := os\<rparr>))"

text \<open>\<open>session.exec(query)\<close>: the query reads the transaction's view.\<close>

definition session_exec :: "(database \<Rightarrow> 'a) \<Rightarrow> 'a io" where
  "session_exec query = bind_io round_trip (\<lambda>_ s. (Inr (query (pending s)), s))"

definition session_add :: "pending_write \<Rightarrow> unit io" where
  "session_add w s = (Inr (), s\<lparr>unit_of_work := unit_of_work s @ [w]\<rparr>)"

text \<open>
  One INSERT or UPDATE against the tables, with the constraints of the models:
  \<open>geo_buckets.h3_index\<close> is unique, both ids are primary keys, the bucket's id comes
  from the sequence, \<open>created_datetime\<close> defaults to \<open>now()\<close>, \<open>updated_datetime\<close> is
  set to \<open>now()\<close> by every UPDATE. The UPDATE writes the count the object carries.
\<close>

definition apply_write ::
  "nat \<Rightarrow> int \<Rightarrow> pending_write \<Rightarrow> database \<Rightarrow> sa_error + database" where
  "apply_write now next_id w db =
     (case w of
        InsertBucket b \<Rightarrow>
          if \<exists>r \<in> set (geo_buckets db). h3_index r = h3_index b \<or> bucket_id r = next_id
          then Inl IntegrityError
          else Inr (db\<lparr>geo_buckets := geo_buckets db @
                 [b\<lparr>bucket_id := next_id, created_datetime := now\<rparr>]\<rparr>)
      | InsertProperty p \<Rightarrow>
          if \<exists>r \<in> set (properties db). property_id r = property_id p
          then Inl IntegrityError
          else if (case geo_bucket_id p of
                     None \<Rightarrow> False
                   | Some g \<Rightarrow> g \<notin> bucket_id ` set (geo_buckets db))
          then Inl IntegrityError
          else Inr (db\<lparr>properties := properties db @ [p\<lparr>property_created := now\<rparr>]\<rparr>)
      | UpdateBucketCount b \<Rightarrow>
          Inr (db\<lparr>geo_buckets :=
                 map (\<lambda>r. if bucket_id r = bucket_id b
                          then r\<lparr>property_count := property_count b,
                                 updated_datetime := Some now\<rparr>
                          else r) (geo_buckets db)\<rparr>))"

fun apply_writes ::
  "nat \<Rightarrow> int \<Rightarrow> pending_write list \<Rightarrow> database \<Rightarrow> sa_error + (database \<times> int)" where
  "apply_writes now next_id [] db = Inr (db, next_id)"
| "apply_writes now next_id (w # ws) db =
     (case apply_write now next_id w db of
        Inl e \<Rightarrow> Inl e
      | Inr db' \<Rightarrow>
          apply_writes now (case w of InsertBucket _ \<Rightarrow> next_id + 1 | _ \<Rightarrow> next_id) ws db')"

text \<open>\<open>session.flush()\<close>: the added objects are written into the transaction's view.\<close>

definition session_flush :: "unit io" where
  "session_flush =
     bind_io round_trip (\<lambda>_ s.
       case apply_writes (clock s) (bucket_seq s) (unit_of_work s) (pending s) of
         Inl e \<Rightarrow> (Inl (SQLAlchemyError e), s\<lparr>unit_of_work := []\<rparr>)
       | Inr (db, next_id) \<Rightarrow>
           (Inr (), s\<lparr>pending := db, unit_of_work := [], bucket_seq := next_id\<rparr>))"

text \<open>\<open>session.commit()\<close>: flush, then make the transaction's view the committed one.\<close>

definition session_commit :: "unit io" where
  "session_commit =
     bind_io session_flush (\<lambda>_.
     bind_io round_trip (\<lambda>_ s.
       (Inr (), s\<lparr>committed := pending s, commit_count := commit_count s + 1\<rparr>)))"

definition session_rollback :: "unit io" where
  "session_rollback s =
     (Inr (), s\<lparr>pending := committed s, unit_of_work := [],
                rollback_count := rollback_count s + 1\<rparr>)"

text \<open>\<open>result.one_or_none()\<close>\<close>

definition one_or_none :: "'a list \<Rightarrow> 'a option io" where
  "one_or_none rows =
     (case rows of
        [] \<Rightarrow> return_io None
      | [r] \<Rightarrow> return_io (Some r)
      | _ \<Rightarrow> raise_io (SQLAlchemyError MultipleResultsFound))"

text \<open>\<open>result.first()\<close>\<close>

definition first :: "'a list \<Rightarrow> 'a option" where
  "first rows = (case rows of [] \<Rightarrow> None | r # _ \<Rightarrow> Some r)"

section \<open>database/repository.py\<close>

text \<open>\<open>except SQLAlchemyError as e: raise DatabaseException(message=msg) from e\<close>\<close>

definition wrap_sqlalchemy :: "string \<Rightarrow> 'a io \<Rightarrow> 'a io" where
  "wrap_sqlalchemy msg m =
     try_except m (\<lambda>e. case e of SQLAlchemyError _ \<Rightarrow> raise_io (DatabaseException msg)
                               | _ \<Rightarrow> raise_io e)"

definition find_one_by_and_none :: "(database \<Rightarrow> 'r list) \<Rightarrow> ('r \<Rightarrow> bool) \<Rightarrow> 'r option io" where
  "find_one_by_and_none table cond =
     wrap_sqlalchemy ''Failed to find record''
       (bind_io (session_exec (\<lambda>db. filter cond (table db))) one_or_none)"

definition execute_raw :: "(database \<Rightarrow> 'a) \<Rightarrow> 'a io" where
  "execute_raw query = wrap_sqlalchemy ''Failed to execute raw query'' (session_exec query)"

text \<open>
  \<open>session.refresh(obj)\<close> reloads the row of the object. A bucket just inserted is found
  by its unique \<open>h3_index\<close>, a property by the id its constructor drew.
\<close>

definition session_refresh_bucket :: "geo_bucket \<Rightarrow> geo_bucket io" where
  "session_refresh_bucket b =
     bind_io (session_exec (\<lambda>db. filter (\<lambda>r. h3_index r = h3_index b) (geo_buckets db)))
       (\<lambda>rows. case rows of r # _ \<Rightarrow> return_io r
                | [] \<Rightarrow> raise_io (SQLAlchemyError OperationalError))"

definition session_refresh_property :: "property \<Rightarrow> property io" where
  "session_refresh_property p =
     bind_io (session_exec (\<lambda>db. filter (\<lambda>r. property_id r = property_id p) (properties db)))
       (\<lambda>rows. case rows of r # _ \<Rightarrow> return_io r
                | [] \<Rightarrow> raise_io (SQLAlchemyError OperationalError))"

text \<open>
  \<open>save_changes\<close>: inside a transaction the changes are flushed, outside they are
  committed; then the object is refreshed.
\<close>

definition save_changes :: "'a io \<Rightarrow> 'a io" where
  "save_changes refresh =
     bind_io (\<lambda>s. if in_transaction s then session_flush s else session_commit s) (\<lambda>_. refresh)"

definition create_geo_bucket :: "geo_bucket \<Rightarrow> geo_bucket io" where
  "create_geo_bucket db_obj =
     wrap_sqlalchemy ''Failed to create record''
       (bind_io (session_add (InsertBucket db_obj)) (\<lambda>_.
        save_changes (session_refresh_bucket db_obj)))"

text \<open>
  The constructor of \<open>Property\<close> draws a fresh ULID (\<open>default_factory\<close>) for the id.
\<close>

definition new_ulid :: "nat io" where
  "new_ulid s = (Inr (ulid_seq s), s\<lparr>ulid_seq := ulid_seq s + 1\<rparr>)"

definition create_property_row :: "property \<Rightarrow> property io" where
  "create_property_row schema =
     wrap_sqlalchemy ''Failed to create record''
       (bind_io new_ulid (\<lambda>ulid.
        let db_obj = schema\<lparr>property_id := ulid\<rparr> in
        bind_io (session_add (InsertProperty db_obj)) (\<lambda>_.
        save_changes (session_refresh_property db_obj))))"

section \<open>shared/utils/h3\_utils.py\<close>

text \<open>
  The \<open>h3\<close> library and the store's \<open>similarity\<close> function (pg\_trgm) are not part of the
  repository; the services take them as parameters. A library function returns \<open>None\<close>
  where the library raises.
\<close>

record env =
  latlng_to_cell :: "real \<Rightarrow> real \<Rightarrow> nat \<Rightarrow> int option"
  grid_disk :: "int \<Rightarrow> nat \<Rightarrow> int list option"
  cell_to_latlng :: "int \<Rightarrow> (real \<times> real) option"
  cell_to_boundary :: "int \<Rightarrow> (real \<times> real) list option"
  pg_similarity :: "string \<Rightarrow> string \<Rightarrow> real"
  st_area_m2 :: "real \<Rightarrow> real \<Rightarrow> real \<Rightarrow> real \<Rightarrow> real option"

record h3_indexes =
  h3_r7 :: int
  h3_r8 :: int
  h3_r9 :: int

definition calculate_h3_indexes :: "env \<Rightarrow> real \<Rightarrow> real \<Rightarrow> h3_indexes option" where
  "calculate_h3_indexes h3 lat lng =
     (case latlng_to_cell h3 lat lng 7 of None \<Rightarrow> None | Some r7 \<Rightarrow>
     (case latlng_to_cell h3 lat lng 8 of None \<Rightarrow> None | Some r8 \<Rightarrow>
     (case latlng_to_cell h3 lat lng 9 of None \<Rightarrow> None | Some r9 \<Rightarrow>
        Some \<lparr>h3_r7 = r7, h3_r8 = r8, h3_r9 = r9\<rparr>)))"

definition create_point_geometry :: "real \<Rightarrow> real \<Rightarrow> point" where
  "create_point_geometry lat lng = (lng, lat)"

definition extract_lat_lng_from_geometry :: "point \<Rightarrow> real \<times> real" where
  "extract_lat_lng_from_geometry g = (snd g, fst g)"

definition h3_to_geometry :: "env \<Rightarrow> int \<Rightarrow> (point \<times> point list) option" where
  "h3_to_geometry h3 cell =
     (case cell_to_latlng h3 cell of None \<Rightarrow> None | Some (lat, lng) \<Rightarrow>
     (case cell_to_boundary h3 cell of None \<Rightarrow> None | Some boundary_coords \<Rightarrow>
        Some ((lng, lat), map (\<lambda>(lat', lng'). (lng', lat')) boundary_coords)))"

definition get_neighbor_h3s :: "env \<Rightarrow> int \<Rightarrow> nat \<Rightarrow> int list option" where
  "get_neighbor_h3s h3 cell k = map_option remdups (grid_disk h3 cell k)"

section \<open>geo\_buckets/services/geo\_bucket\_service.py\<close>

text \<open>\<open>GeoBucketRead.from_model\<close> copies the row field by field.\<close>

definition from_model :: "geo_bucket \<Rightarrow> geo_bucket" where
  "from_model model =
     \<lparr>bucket_id = bucket_id model,
      h3_index = h3_index model,
      h3_resolution = h3_resolution model,
      parent_h3 = (case parent_h3 model of None \<Rightarrow> None | Some p \<Rightarrow> Some p),
      canonical_name = canonical_name model,
      canonical_name_normalized = canonical_name_normalized model,
      center_point = (case center_point model of None \<Rightarrow> None | Some c \<Rightarrow> Some c),
      hexagon_boundary = (case hexagon_boundary model of None \<Rightarrow> None | Some h \<Rightarrow> Some h),
      property_count = property_count model,
      created_datetime = created_datetime model,
      updated_datetime = (case updated_datetime model of None \<Rightarrow> None | Some u \<Rightarrow> Some u)\<rparr>"

text \<open>
  The WHERE clause of the neighbour query: the cell is one of the neighbours and the
  store's similarity of the stored normalized name to the incoming one exceeds 0.7
  (a NULL name makes the comparison NULL, and the row is left out).
\<close>

definition neighbor_match :: "env \<Rightarrow> int list \<Rightarrow> string \<Rightarrow> geo_bucket \<Rightarrow> bool" where
  "neighbor_match h3 neighbors normalized_name b =
     (h3_index b \<in> set neighbors \<and>
      (case canonical_name_normalized b of
         None \<Rightarrow> False
       | Some n \<Rightarrow> pg_similarity h3 n normalized_name > 7 / 10))"

definition find_or_create_bucket ::
  "env \<Rightarrow> int \<Rightarrow> string \<Rightarrow> string \<Rightarrow> int \<Rightarrow> geo_bucket io" where
  "find_or_create_bucket h3 h3_index_r8' location_name' normalized_name parent_h3' =
     try_except
       (bind_io (find_one_by_and_none geo_buckets (\<lambda>b. h3_index b = h3_index_r8')) (\<lambda>bucket.
          case bucket of
            Some b \<Rightarrow> return_io (from_model b)
          | None \<Rightarrow>
              bind_io (library_call (get_neighbor_h3s h3 h3_index_r8' 1)) (\<lambda>neighbors.
              bind_io (execute_raw (\<lambda>db.
                         filter (neighbor_match h3 neighbors normalized_name) (geo_buckets db)))
                (\<lambda>bucket_query.
                   case first bucket_query of
                     Some b \<Rightarrow> return_io (from_model b)
                   | None \<Rightarrow>
                       bind_io (library_call (h3_to_geometry h3 h3_index_r8'))
                         (\<lambda>(center_wkt, hexagon_wkt).
                       bind_io (create_geo_bucket
                                  \<lparr>bucket_id = 0,
                                   h3_index = h3_index_r8',
                                   h3_resolution = 8,
                                   parent_h3 = Some parent_h3',
                                   canonical_name = Some location_name',
                                   canonical_name_normalized = Some normalized_name,
                                   center_point = Some center_wkt,
                                   hexagon_boundary = Some hexagon_wkt,
                                   property_count = 0,
                                   created_datetime = 0,
                                   updated_datetime = None\<rparr>)
                         (\<lambda>b. return_io (from_model b)))))))
       (\<lambda>e. case e of
               DatabaseException _ \<Rightarrow>
                 raise_io (AppException ''Failed to find or create geo bucket'')
             | _ \<Rightarrow>
                 raise_io (AppException
                   ''An unexpected error occurred while trying find the geobucket.''))"

text \<open>
  \<open>increment_property_count\<close>, in the two halves its body has: the row is loaded
  (lines 110-113), then the count of the loaded object is raised by one and written
  back (lines 115-119).
\<close>

definition increment_load :: "int \<Rightarrow> geo_bucket io" where
  "increment_load geo_bucket_id' =
     bind_io (find_one_by_and_none geo_buckets (\<lambda>b. bucket_id b = geo_bucket_id')) (\<lambda>found.
       case found of
         None \<Rightarrow> raise_io (AppException ''GeoBucket not found for incrementing property count.'')
       | Some b \<Rightarrow> return_io b)"

definition increment_store :: "geo_bucket \<Rightarrow> unit io" where
  "increment_store loaded =
     (let b = loaded\<lparr>property_count := property_count loaded + 1\<rparr> in
      bind_io (session_add (UpdateBucketCount b)) (\<lambda>_.
      bind_io (save_changes (session_refresh_bucket b)) (\<lambda>_. return_io ())))"

definition increment_property_count :: "int \<Rightarrow> unit io" where
  "increment_property_count geo_bucket_id' =
     try_except
       (bind_io (increment_load geo_bucket_id') increment_store)
       (\<lambda>e. case e of
               DatabaseException _ \<Rightarrow> raise_io (AppException ''Failed to increment property count'')
             | _ \<Rightarrow>
                 raise_io (AppException
                   ''An unexpected error occurred while incrementing the property count.''))"












text \<open>
  The rows of the top-buckets query: the buckets with a positive count, by count in
  descending order (rows of equal count in table order), the first \<open>limit\<close> of them.
\<close>

definition top_bucket_rows :: "nat \<Rightarrow> database \<Rightarrow> geo_bucket list" where
  "top_bucket_rows limit db =
     take limit (sort_key (\<lambda>b. - property_count b)
                   (filter (\<lambda>b. property_count b > 0) (geo_buckets db)))"
















section \<open>database/transaction.py and database/decorators/transactional.py\<close>

text \<open>
  \<open>async with Transaction(session): return await func()\<close>. \<open>__aenter__\<close> reads the
  level, notes whether the scope is the outermost one and raises the level by one.
  \<open>__aexit__\<close> rolls back (outermost scope, exception) or commits (outermost scope, no
  exception), and in every case puts the level back; an exception of the body goes on
  to the caller, and so does one of the commit.
\<close>

definition with_transaction :: "'a io \<Rightarrow> 'a io" where
  "with_transaction func s =
     (let level = transaction_level s;
          is_outermost = (level = 0);
          entered = s\<lparr>transaction_level := level + 1\<rparr>
      in case func entered of
           (Inl e, s') \<Rightarrow>
             (let s'' = (if is_outermost then snd (session_rollback s') else s')
              in (Inl e, s''\<lparr>transaction_level := level\<rparr>))
         | (Inr x, s') \<Rightarrow>
             (if is_outermost
              then (case session_commit s' of
                      (Inl e, s'') \<Rightarrow> (Inl e, s''\<lparr>transaction_level := level\<rparr>)
                    | (Inr _, s'') \<Rightarrow> (Inr x, s''\<lparr>transaction_level := level\<rparr>))
              else (Inr x, s'\<lparr>transaction_level := level\<rparr>)))"

text \<open>
  The decorator: inside a transaction the function runs in it, otherwise in a new one.
  The services hold their session in \<open>self.session\<close>, so the lookup of the session
  succeeds.
\<close>

definition transactional :: "'a io \<Rightarrow> 'a io" where
  "transactional func s = (if in_transaction s then func s else with_transaction func s)"

section \<open>properties/schemas/property.py\<close>

record property_create_request =
  req_title :: string
  req_location_name :: string
  req_lat :: real
  req_lng :: real
  req_attributes :: "string option"

record property_read =
  read_id :: nat
  read_title :: string
  read_location_name :: string
  latitude :: real
  longitude :: real
  read_attributes :: "string option"
  read_created_datetime :: nat
  read_updated_datetime :: "nat option"

text \<open>The bounds of the types \<open>Latitude\<close> and \<open>Longitude\<close>.\<close>

definition valid_latitude :: "real \<Rightarrow> bool" where
  "valid_latitude lat = (- 90 \<le> lat \<and> lat \<le> 90)"

definition valid_longitude :: "real \<Rightarrow> bool" where
  "valid_longitude lng = (- 180 \<le> lng \<and> lng \<le> 180)"

text \<open>
  \<open>StringConstraints(strip_whitespace=True)\<close>: the validator trims the code points of
  the Unicode property White\_Space from both ends. Unlike \<open>str.strip\<close> it keeps the
  separators U+001C to U+001F.
\<close>

definition is_white_space :: "char \<Rightarrow> bool" where
  "is_white_space c = (c \<in> set [CHR 0x09, CHR 0x0A, CHR 0x0B, CHR 0x0C, CHR 0x0D, CHR 0x20,
                                CHR 0x85, CHR 0xA0])"

definition strip_whitespace :: "string \<Rightarrow> string" where
  "strip_whitespace s = rev (dropWhile is_white_space (rev (dropWhile is_white_space s)))"

text \<open>
  The validation of a \<open>PropertyCreateRequest\<close>: title and location name are trimmed
  and must have between 1 and 2000 characters, latitude and longitude must lie within
  the bounds of their types.
\<close>

definition validate_create_request ::
  "string \<Rightarrow> string \<Rightarrow> real \<Rightarrow> real \<Rightarrow> string option \<Rightarrow> exn + property_create_request" where
  "validate_create_request title' location_name' lat lng attributes' =
     (let t = strip_whitespace title'; l = strip_whitespace location_name' in
      if 1 \<le> length t \<and> length t \<le> 2000 \<and> 1 \<le> length l \<and> length l \<le> 2000 \<and>
         valid_latitude lat \<and> valid_longitude lng
      then Inr \<lparr>req_title = t, req_location_name = l, req_lat = lat, req_lng = lng,
                req_attributes = attributes'\<rparr>
      else Inl ValidationError)"

definition get_lat_lng_from_h3 :: "env \<Rightarrow> int \<Rightarrow> (real \<times> real) option" where
  "get_lat_lng_from_h3 h3 cell = cell_to_latlng h3 cell"

definition build_property_read :: "property \<Rightarrow> real \<Rightarrow> real \<Rightarrow> exn + property_read" where
  "build_property_read model lat lng =
     (if valid_latitude lat \<and> valid_longitude lng
      then Inr \<lparr>read_id = property_id model,
                read_title = title model,
                read_location_name = location_name model,
                latitude = lat,
                longitude = lng,
                read_attributes = attributes model,
                read_created_datetime = property_created model,
                read_updated_datetime = property_updated model\<rparr>
      else Inl ValidationError)"

text \<open>
  \<open>PropertyRead.from_values\<close>: the coordinates of the row when they are within bounds,
  otherwise the center of the row's cell (\<open>h3_index_r9 or h3_index_r8\<close>).
\<close>

definition from_values :: "env \<Rightarrow> property \<Rightarrow> exn + property_read" where
  "from_values h3 model =
     (case extract_lat_lng_from_geometry (coordinates model) of
        (lat, lng) \<Rightarrow>
          if - 90 \<le> lat \<and> lat \<le> 90 \<and> - 180 \<le> lng \<and> lng \<le> 180
          then build_property_read model lat lng
          else (case get_lat_lng_from_h3 h3
                       (if h3_index_r9 model \<noteq> 0 then h3_index_r9 model else h3_index_r8 model) of
                  None \<Rightarrow>
                    Inl (ValueError ''Failed to determine valid latitude/longitude for property'')
                | Some (lat', lng') \<Rightarrow> build_property_read model lat' lng'))"

definition lift_io :: "exn + 'a \<Rightarrow> 'a io" where
  "lift_io r s = (r, s)"

section \<open>properties/services/property\_service.py\<close>

text \<open>The handlers that close \<open>create_property\<close> and \<open>create_property_if_not_exists\<close>.\<close>

definition create_property_handlers :: "exn \<Rightarrow> 'a io" where
  "create_property_handlers e =
     (case e of
        DatabaseException _ \<Rightarrow> raise_io (AppException ''Failed to create property listing.'')
      | AppException m \<Rightarrow> raise_io (AppException m)
      | _ \<Rightarrow>
          raise_io (AppException
            ''An unexpected error occurred while creating the property listing.''))"

text \<open>Lines 42 to 70 (and 97 to 125): index, normalize, resolve, persist, count.\<close>

definition index_resolve_persist ::
  "env \<Rightarrow> char list \<Rightarrow> property_create_request \<Rightarrow> property_read io" where
  "index_resolve_persist h3 seps payload =
     bind_io (library_call (calculate_h3_indexes h3 (req_lat payload) (req_lng payload)))
       (\<lambda>h3_indexes'.
     let normalized_name = normalize seps (req_location_name payload);
         point_wkt = create_point_geometry (req_lat payload) (req_lng payload)
     in
     bind_io (find_or_create_bucket h3 (h3_r8 h3_indexes') (req_location_name payload)
                normalized_name (h3_r7 h3_indexes')) (\<lambda>bucket.
     bind_io (create_property_row
                \<lparr>property_id = 0,
                 title = req_title payload,
                 location_name = req_location_name payload,
                 location_name_normalized = normalized_name,
                 coordinates = point_wkt,
                 h3_index_r8 = h3_r8 h3_indexes',
                 h3_index_r9 = h3_r9 h3_indexes',
                 attributes = req_attributes payload,
                 geo_bucket_id = Some (bucket_id bucket),
                 property_created = 0,
                 property_updated = None\<rparr>) (\<lambda>property'.
     bind_io (increment_property_count (bucket_id bucket)) (\<lambda>_.
       lift_io (from_values h3 property')))))"

definition create_property ::
  "env \<Rightarrow> char list \<Rightarrow> property_create_request \<Rightarrow> property_read io" where
  "create_property h3 seps payload =
     transactional
       (try_except (index_resolve_persist h3 seps payload) create_property_handlers)"

definition create_property_if_not_exists ::
  "env \<Rightarrow> char list \<Rightarrow> property_create_request \<Rightarrow> property_read io" where
  "create_property_if_not_exists h3 seps payload =
     transactional
       (try_except
          (bind_io (find_one_by_and_none properties (\<lambda>p. title p = req_title payload))
             (\<lambda>existing_property.
                case existing_property of
                  Some p \<Rightarrow> lift_io (from_values h3 p)
                | None \<Rightarrow> index_resolve_persist h3 seps payload))
          create_property_handlers)"



section \<open>Callers on separate connections\<close>

text \<open>
  A session that a request opens on the committed rows, outside any transaction and
  with a store that answers every round trip.
\<close>

definition fresh_session :: "database \<Rightarrow> session" where
  "fresh_session db =
     \<lparr>committed = db, pending = db, unit_of_work = [], transaction_level = 0,
      outcomes = [], bucket_seq = 1 + fold max (map bucket_id (geo_buckets db)) 0,
      ulid_seq = 1 + fold max (map property_id (properties db)) 0, clock = 0,
      commit_count = 0, rollback_count = 0\<rparr>"

text \<open>
  One caller runs a piece of its work on its own session against the committed rows;
  what it commits is what the next piece of any caller finds.
\<close>

definition on_connection :: "'a io \<Rightarrow> database \<Rightarrow> (exn + 'a) \<times> database" where
  "on_connection m db = (case m (fresh_session db) of (r, s) \<Rightarrow> (r, committed s))"


text \<open>
  The body of \<open>find_or_create_bucket\<close> in its two parts, for callers whose calls
  interleave: the lookups (lines 54 to 73), which give the bucket found or \<open>None\<close>, and
  the creation (lines 75 to 90); \<open>resolve_handlers\<close> are the handlers that close the
  function (lines 91 to 100).
\<close>

definition resolve_lookup :: "env \<Rightarrow> int \<Rightarrow> string \<Rightarrow> geo_bucket option io" where
  "resolve_lookup h3 h3_index_r8' normalized_name =
     bind_io (find_one_by_and_none geo_buckets (\<lambda>b. h3_index b = h3_index_r8')) (\<lambda>bucket.
       case bucket of
         Some b \<Rightarrow> return_io (Some (from_model b))
       | None \<Rightarrow>
           bind_io (library_call (get_neighbor_h3s h3 h3_index_r8' 1)) (\<lambda>neighbors.
           bind_io (execute_raw (\<lambda>db.
                      filter (neighbor_match h3 neighbors normalized_name) (geo_buckets db)))
             (\<lambda>bucket_query.
                case first bucket_query of
                  Some b \<Rightarrow> return_io (Some (from_model b))
                | None \<Rightarrow> return_io None)))"

definition resolve_create :: "env \<Rightarrow> int \<Rightarrow> string \<Rightarrow> string \<Rightarrow> int \<Rightarrow> geo_bucket io" where
  "resolve_create h3 h3_index_r8' location_name' normalized_name parent_h3' =
     bind_io (library_call (h3_to_geometry h3 h3_index_r8'))
       (\<lambda>(center_wkt, hexagon_wkt).
     bind_io (create_geo_bucket
                \<lparr>bucket_id = 0,
                 h3_index = h3_index_r8',
                 h3_resolution = 8,
                 parent_h3 = Some parent_h3',
                 canonical_name = Some location_name',
                 canonical_name_normalized = Some normalized_name,
                 center_point = Some center_wkt,
                 hexagon_boundary = Some hexagon_wkt,
                 property_count = 0,
                 created_datetime = 0,
                 updated_datetime = None\<rparr>)
       (\<lambda>b. return_io (from_model b)))"

definition resolve_handlers :: "exn \<Rightarrow> 'a io" where
  "resolve_handlers e =
     (case e of
        DatabaseException _ \<Rightarrow> raise_io (AppException ''Failed to find or create geo bucket'')
      | _ \<Rightarrow>
          raise_io (AppException
            ''An unexpected error occurred while trying find the geobucket.''))"

text \<open>
  Two callers resolve the same cell. The first makes its lookups; when they miss, the
  second resolves the cell and returns; then the first goes on to the creation. The
  result is what the first caller receives, and the committed rows.
\<close>

definition resolve_behind_another ::
  "env \<Rightarrow> int \<Rightarrow> string \<Rightarrow> string \<Rightarrow> int \<Rightarrow> database \<Rightarrow> (exn + geo_bucket) \<times> database" where
  "resolve_behind_another h3 h3_index_r8' location_name' normalized_name parent_h3' db =
     (case on_connection
             (try_except (resolve_lookup h3 h3_index_r8' normalized_name) resolve_handlers) db of
        (Inl e, db1) \<Rightarrow> (Inl e, db1)
      | (Inr (Some b), db1) \<Rightarrow> (Inr b, db1)
      | (Inr None, db1) \<Rightarrow>
          (case on_connection
                  (find_or_create_bucket h3 h3_index_r8' location_name' normalized_name parent_h3')
                  db1 of
             (_, db2) \<Rightarrow>
               on_connection
                 (try_except
                    (resolve_create h3 h3_index_r8' location_name' normalized_name parent_h3')
                    resolve_handlers) db2))"


text \<open>The count of the bucket with the given id, over the rows of a table.\<close>

definition count_of :: "int \<Rightarrow> geo_bucket list \<Rightarrow> int list" where
  "count_of i rows = map property_count (filter (\<lambda>b. bucket_id b = i) rows)"

section \<open>Example values\<close>

text \<open>
  A stand-in for the \<open>h3\<close> library and the store's functions that answers every call:
  the cell of a coordinate at a resolution is the resolution, the disk around a cell
  is the cell and its two neighbours, the similarity of two names is 1 when they are
  equal and 0 otherwise.
\<close>

definition example_h3 :: env where
  "example_h3 =
     \<lparr>latlng_to_cell = (\<lambda>lat lng res. Some (int res)),
      grid_disk = (\<lambda>cell k. Some [cell, cell + 1, cell - 1]),
      cell_to_latlng = (\<lambda>cell. Some (13 / 2, 7 / 2)),
      cell_to_boundary = (\<lambda>cell. Some [(6, 3), (7, 3), (7, 4)]),
      pg_similarity = (\<lambda>a b. if a = b then 1 else 0),
      st_area_m2 = (\<lambda>min_lng' min_lat' max_lng' max_lat'. Some 1000000)\<rparr>"

definition source_order :: "char list" where
  "source_order = [CHR '','', CHR ''-'', CHR ''/'', CHR 0x5C, CHR ''|'', CHR '';'']"

definition lagos_bucket :: geo_bucket where
  "lagos_bucket =
     \<lparr>bucket_id = 1, h3_index = 8, h3_resolution = 8, parent_h3 = Some 7,
      canonical_name = Some ''Lagos'', canonical_name_normalized = Some ''lagos'',
      center_point = Some (7 / 2, 13 / 2),
      hexagon_boundary = Some [(3, 6), (3, 7), (4, 7)],
      property_count = 5, created_datetime = 0, updated_datetime = None\<rparr>"

definition flat_listing :: property where
  "flat_listing =
     \<lparr>property_id = 1, title = ''3 Bedroom Flat'', location_name = ''Lagos'',
      location_name_normalized = ''lagos'', coordinates = (7 / 2, 13 / 2),
      h3_index_r8 = 8, h3_index_r9 = 9, attributes = None, geo_bucket_id = Some 1,
      property_created = 0, property_updated = None\<rparr>"

definition flat_request :: property_create_request where
  "flat_request =
     \<lparr>req_title = ''3 Bedroom Flat'', req_location_name = ''Ikeja'',
      req_lat = 1, req_lng = 2, req_attributes = Some ''{}''\<rparr>"


definition lagos_db :: database where
  "lagos_db = \<lparr>geo_buckets = [lagos_bucket], properties = [flat_listing]\<rparr>"

section \<open>Runs of matching elements\<close>

text \<open>
  For the matcher run on a sequence and itself: \<open>run_len x i\<close> is the length of the run
  of elements that are not popular and ends at index \<open>i\<close>, \<open>next_len\<close> the length the
  inner loop assigns to a cell, \<open>prev_run\<close> the run that ends before \<open>i\<close>, and
  \<open>diag_inv\<close> what holds of the row and the best block before row \<open>i\<close>: the block lies
  on the diagonal and is at least as long as every run seen.
\<close>

fun run_len :: "string \<Rightarrow> nat \<Rightarrow> nat" where
  "run_len x 0 = (if popular x (x ! 0) then 0 else 1)"
| "run_len x (Suc i) = (if popular x (x ! Suc i) then 0 else Suc (run_len x i))"

definition next_len :: "(nat \<Rightarrow> nat) \<Rightarrow> nat \<Rightarrow> nat" where
  "next_len j2len j = (if j = 0 then 0 else j2len (j - 1)) + 1"

definition prev_run :: "string \<Rightarrow> nat \<Rightarrow> nat" where
  "prev_run x i = (if i = 0 then 0 else run_len x (i - 1))"

definition diag_inv :: "string \<Rightarrow> nat \<Rightarrow> (nat \<Rightarrow> nat) \<times> best \<Rightarrow> bool" where
  "diag_inv x i st =
     (case st of (j2len, (bi, bj, bs)) \<Rightarrow>
        bi = bj \<and> bi + bs \<le> i \<and> (\<forall>i'<i. run_len x i' \<le> bs) \<and>
        (\<forall>j. j2len j \<le> run_len x j) \<and> (\<forall>j. j2len j \<le> prev_run x i) \<and>
        (i > 0 \<longrightarrow> j2len (i - 1) = run_len x (i - 1)))"

text \<open>
  For the matcher run on any two sequences: the best block so far lies within the rows
  already seen, and no cell of a row is longer than the number of those rows.
\<close>

definition in_region :: "nat \<Rightarrow> nat \<Rightarrow> (nat \<Rightarrow> nat) \<times> best \<Rightarrow> bool" where
  "in_region alo i st =
     (case st of (j2len, (bi, bj, bs)) \<Rightarrow>
        alo \<le> bi \<and> bi + bs \<le> i \<and> (\<forall>j. j2len j \<le> i - alo))"

section \<open>What a call leaves alone inside a transaction\<close>

text \<open>
  A call stays in scope when, started inside a transaction, it changes neither the
  committed rows nor the transaction level, and neither commits nor rolls back.
\<close>

definition in_scope :: "'a io \<Rightarrow> bool" where
  "in_scope m =
     (\<forall>s r s'. in_transaction s \<longrightarrow> m s = (r, s') \<longrightarrow>
        committed s' = committed s \<and> transaction_level s' = transaction_level s \<and>
        commit_count s' = commit_count s \<and> rollback_count s' = rollback_count s)"

section \<open>Properties of the bucket service\<close>

lemmas io_defs = return_io_def raise_io_def bind_io_def try_except_def library_call_def
  round_trip_def session_exec_def session_add_def session_flush_def session_commit_def
  one_or_none_def first_def wrap_sqlalchemy_def find_one_by_and_none_def execute_raw_def
  session_refresh_bucket_def save_changes_def create_geo_bucket_def in_transaction_def

lemma from_model_id: "from_model b = b"
  by (cases b) (simp add: from_model_def split: option.splits)

lemma filter_unique_key:
  "distinct (map f xs) \<Longrightarrow> b \<in> set xs \<Longrightarrow> filter (\<lambda>x. f x = f b) xs = [b]"
proof (induction xs)
  case Nil
  then show ?case by simp
next
  case (Cons a xs)
  show ?case
  proof (cases "a = b")
    case True
    with Cons.prems have "f b \<notin> f ` set xs" by simp
    then have "\<forall>x\<in>set xs. f x \<noteq> f b" by (metis image_eqI)
    then have "filter (\<lambda>x. f x = f b) xs = []" by (simp add: filter_empty_conv)
    with True show ?thesis by simp
  next
    case False
    with Cons.prems have "b \<in> set xs" "f a \<noteq> f b" by auto
    with Cons show ?thesis by simp
  qed
qed

lemma find_exact:
  assumes "distinct (map h3_index (geo_buckets (pending s)))"
      and "b \<in> set (geo_buckets (pending s))" and "outcomes s = []"
  shows "find_or_create_bucket h3 (h3_index b) name nname parent s = (Inr b, s)"
  using assms filter_unique_key[of h3_index "geo_buckets (pending s)" b]
  by (simp add: find_or_create_bucket_def io_defs from_model_id)

lemma find_twice:
  assumes "outcomes s = []" and "unit_of_work s = []"
      and "find_or_create_bucket h3 c name nname parent s = (Inr b1, s1)"
  shows "find_or_create_bucket h3 c name nname parent s1 = (Inr b1, s1)"
proof (cases "filter (\<lambda>b. h3_index b = c) (geo_buckets (pending s))")
  case Nil
  show ?thesis
  proof (cases "get_neighbor_h3s h3 c 1")
    case None
    with Nil assms show ?thesis
      by (simp add: find_or_create_bucket_def io_defs)
  next
    case (Some ns)
    show ?thesis
    proof (cases "filter (neighbor_match h3 ns nname) (geo_buckets (pending s))")
      case (Cons r rs)
      with Nil Some assms show ?thesis
        by (auto simp add: find_or_create_bucket_def io_defs)
    next
      case fz: Nil
      show ?thesis
      proof (cases "h3_to_geometry h3 c")
        case None
        with Nil Some fz assms show ?thesis
          by (simp add: find_or_create_bucket_def io_defs)
      next
        case (Some g)
        obtain center hex where g: "g = (center, hex)" by (cases g)
        from Nil have nex: "\<forall>r\<in>set (geo_buckets (pending s)). h3_index r \<noteq> c"
          by (simp add: filter_empty_conv)
        with Nil \<open>get_neighbor_h3s h3 c 1 = Some ns\<close> Some g fz assms show ?thesis
          apply (simp add: find_or_create_bucket_def io_defs apply_write_def from_model_id
              split: if_splits)
          apply (auto simp add: io_defs apply_write_def from_model_id filter_empty_conv)
          done
      qed
    qed
  qed
next
  case (Cons r rs)
  with assms show ?thesis
    by (cases rs) (auto simp add: find_or_create_bucket_def io_defs from_model_id)
qed

text \<open>
  Claim C5. When the store answers its round trips and the session holds no unflushed
  object: a bucket of the transaction's view whose cell is the incoming cell is returned
  as it is stored, and the session is left as it was (no field of any bucket changes,
  the canonical name included); and when a call returns a bucket, the same call made
  again returns the same bucket and leaves the session, and so the set of buckets, as
  the first call left it.
\<close>

theorem resolve_exact_match_unchanged:
  assumes "outcomes s = []" and "unit_of_work s = []"
  shows "(b \<in> set (geo_buckets (pending s)) \<and> distinct (map h3_index (geo_buckets (pending s)))
            \<longrightarrow> find_or_create_bucket h3 (h3_index b) name nname parent s = (Inr b, s)) \<and>
         (find_or_create_bucket h3 c name nname parent s = (Inr b1, s1)
            \<longrightarrow> find_or_create_bucket h3 c name nname parent s1 = (Inr b1, s1))"
  using assms find_exact find_twice by blast

theorem resolve_exact_match_unchanged_witness:
  "find_or_create_bucket example_h3 (h3_index lagos_bucket) ''Lekki'' ''lekki'' 7
     (fresh_session lagos_db) = (Inr lagos_bucket, fresh_session lagos_db) \<and>
   find_or_create_bucket example_h3 20 ''Ikeja'' ''ikeja'' 19
     (snd (find_or_create_bucket example_h3 20 ''Ikeja'' ''ikeja'' 19 (fresh_session lagos_db))) =
   find_or_create_bucket example_h3 20 ''Ikeja'' ''ikeja'' 19 (fresh_session lagos_db) \<and>
   length (geo_buckets (pending
     (snd (find_or_create_bucket example_h3 20 ''Ikeja'' ''ikeja'' 19 (fresh_session lagos_db)))))
     = 2"
proof -
  let ?s = "fresh_session lagos_db"
  let ?r = "find_or_create_bucket example_h3 20 ''Ikeja'' ''ikeja'' 19 ?s"
  have o: "outcomes ?s = []" and u: "unit_of_work ?s = []"
    by (simp_all add: fresh_session_def)
  have m: "lagos_bucket \<in> set (geo_buckets (pending ?s)) \<and>
           distinct (map h3_index (geo_buckets (pending ?s)))"
    by (simp add: fresh_session_def lagos_db_def)
  have r: "?r = (Inr (projr (fst ?r)), snd ?r)"
    by code_simp
  have n: "length (geo_buckets (pending (snd ?r))) = 2"
    by code_simp
  from resolve_exact_match_unchanged[OF o u, where b = lagos_bucket and ?h3.0 = example_h3
      and name = "''Lekki''" and nname = "''lekki''" and parent = 7]
  have a: "find_or_create_bucket example_h3 (h3_index lagos_bucket) ''Lekki'' ''lekki'' 7 ?s =
           (Inr lagos_bucket, ?s)"
    using m by blast
  from resolve_exact_match_unchanged[OF o u, where ?h3.0 = example_h3 and c = 20
      and name = "''Ikeja''" and nname = "''ikeja''" and parent = 19
      and ?b1.0 = "projr (fst ?r)" and ?s1.0 = "snd ?r"]
  have b: "find_or_create_bucket example_h3 20 ''Ikeja'' ''ikeja'' 19 (snd ?r) = ?r"
    using r by metis
  from a b n show ?thesis by simp
qed

lemma try_except_bind_resolve:
  "try_except (bind_io m f) resolve_handlers s =
     (case try_except m resolve_handlers s of
        (Inl e, s') \<Rightarrow> (Inl e, s')
      | (Inr x, s') \<Rightarrow> try_except (f x) resolve_handlers s')"
  by (auto simp: try_except_def bind_io_def resolve_handlers_def raise_io_def
           split: prod.splits sum.splits exn.splits)

lemma find_or_create_bucket_parts:
  "find_or_create_bucket h3 c name nname parent =
     try_except
       (bind_io (resolve_lookup h3 c nname) (\<lambda>found.
          case found of
            Some b \<Rightarrow> return_io b
          | None \<Rightarrow> resolve_create h3 c name nname parent))
       resolve_handlers"
proof
  fix s
  show "find_or_create_bucket h3 c name nname parent s =
     try_except
       (bind_io (resolve_lookup h3 c nname) (\<lambda>found.
          case found of
            Some b \<Rightarrow> return_io b
          | None \<Rightarrow> resolve_create h3 c name nname parent))
       resolve_handlers s"
    by (auto simp: find_or_create_bucket_def resolve_lookup_def resolve_create_def
          resolve_handlers_def try_except_def bind_io_def return_io_def
          split: prod.splits sum.splits option.splits exn.splits)
qed

text \<open>
  Claim C1, as stated, at a concrete input: two callers resolve cell 20, for which the
  store holds no bucket. The lookups of the first miss; the second resolves the cell,
  which creates its bucket; the first goes on to create, the store rejects its INSERT
  with the unique-key violation, and the first caller receives an \<open>AppException\<close>
  although the bucket of cell 20 now exists (the lookups made again find it). The
  same exception is raised when the store answers the INSERT of a single caller with
  the violation.
\<close>

theorem conflict_on_create_counterexample:
  "map h3_index (geo_buckets lagos_db) = [8] \<and>
   fst (on_connection (try_except (resolve_lookup example_h3 20 ''ikeja'') resolve_handlers)
          lagos_db) = Inr None \<and>
   fst (resolve_behind_another example_h3 20 ''Ikeja'' ''ikeja'' 19 lagos_db) =
     Inl (AppException ''Failed to find or create geo bucket'') \<and>
   map h3_index (geo_buckets (snd (resolve_behind_another example_h3 20 ''Ikeja'' ''ikeja'' 19
     lagos_db))) = [8, 20] \<and>
   map_sum id (map_option h3_index)
     (fst (on_connection (try_except (resolve_lookup example_h3 20 ''ikeja'') resolve_handlers)
        (snd (resolve_behind_another example_h3 20 ''Ikeja'' ''ikeja'' 19 lagos_db)))) =
     Inr (Some 20) \<and>
   fst (find_or_create_bucket example_h3 20 ''Ikeja'' ''ikeja'' 19
     ((fresh_session lagos_db)\<lparr>outcomes := [Succeeds, Succeeds, RaisesSql IntegrityError]\<rparr>)) =
     Inl (AppException ''Failed to find or create geo bucket'')"
  by code_simp

text \<open>
  Claim C1, amended. When the exact lookup and the neighbour query both miss and the
  store rejects the INSERT of the new bucket with its unique-key violation, the
  resolver does not fetch again: the call makes three round trips to the store (the
  two lookups and the INSERT) and no other, the violation reaches the caller as the
  \<open>AppException\<close> "Failed to find or create geo bucket", and neither the transaction's
  view nor the committed rows change.
\<close>

theorem conflict_on_create_surfaces:
  assumes "outcomes s = Succeeds # Succeeds # RaisesSql IntegrityError # rest"
      and "filter (\<lambda>b. h3_index b = c) (geo_buckets (pending s)) = []"
      and "get_neighbor_h3s h3 c 1 = Some ns"
      and "filter (neighbor_match h3 ns nname) (geo_buckets (pending s)) = []"
      and "h3_to_geometry h3 c = Some g"
  shows "fst (find_or_create_bucket h3 c name nname parent s) =
           Inl (AppException ''Failed to find or create geo bucket'') \<and>
         outcomes (snd (find_or_create_bucket h3 c name nname parent s)) = rest \<and>
         pending (snd (find_or_create_bucket h3 c name nname parent s)) = pending s \<and>
         committed (snd (find_or_create_bucket h3 c name nname parent s)) = committed s"
proof -
  obtain center hex where g: "g = (center, hex)" by (cases g)
  from assms g show ?thesis
    by (simp add: find_or_create_bucket_def io_defs)
qed

theorem conflict_on_create_surfaces_witness:
  "fst (find_or_create_bucket example_h3 20 ''Ikeja'' ''ikeja'' 19
     ((fresh_session lagos_db)\<lparr>outcomes :=
        [Succeeds, Succeeds, RaisesSql IntegrityError, RaisesOther]\<rparr>)) =
     Inl (AppException ''Failed to find or create geo bucket'') \<and>
   outcomes (snd (find_or_create_bucket example_h3 20 ''Ikeja'' ''ikeja'' 19
     ((fresh_session lagos_db)\<lparr>outcomes :=
        [Succeeds, Succeeds, RaisesSql IntegrityError, RaisesOther]\<rparr>))) = [RaisesOther] \<and>
   pending (snd (find_or_create_bucket example_h3 20 ''Ikeja'' ''ikeja'' 19
     ((fresh_session lagos_db)\<lparr>outcomes :=
        [Succeeds, Succeeds, RaisesSql IntegrityError, RaisesOther]\<rparr>))) = lagos_db"
proof -
  let ?s = "(fresh_session lagos_db)\<lparr>outcomes :=
              [Succeeds, Succeeds, RaisesSql IntegrityError, RaisesOther]\<rparr>"
  have 1: "outcomes ?s = Succeeds # Succeeds # RaisesSql IntegrityError # [RaisesOther]" by simp
  have 2: "filter (\<lambda>b. h3_index b = 20) (geo_buckets (pending ?s)) = []"
    by (simp add: fresh_session_def lagos_db_def lagos_bucket_def)
  have 3: "get_neighbor_h3s example_h3 20 1 = Some [20, 21, 19]"
    by (simp add: get_neighbor_h3s_def example_h3_def)
  have 4: "filter (neighbor_match example_h3 [20, 21, 19] ''ikeja'') (geo_buckets (pending ?s)) = []"
    by (simp add: fresh_session_def lagos_db_def lagos_bucket_def neighbor_match_def)
  have 5: "h3_to_geometry example_h3 20 = Some ((7 / 2, 13 / 2), [(3, 6), (3, 7), (4, 7)])"
    by (simp add: h3_to_geometry_def example_h3_def)
  have 6: "pending ?s = lagos_db" by (simp add: fresh_session_def)
  from conflict_on_create_surfaces[OF 1 2 3 4 5, of "''Ikeja''" 19] 6 show ?thesis
    by simp
qed

text \<open>
  Claim C2, at the failing input: bucket 7 does not exist. The body raises the
  not-found \<open>AppException\<close> (line 113), the function's own \<open>except Exception\<close> (line 126)
  catches it, and the caller receives the exception of an unexpected failure, the
  same one it receives when bucket 1 exists and the store fails in an unforeseen way.
\<close>

theorem increment_missing_bucket_reported_as_unexpected:
  "fst (increment_load 7 (fresh_session lagos_db)) =
     Inl (AppException ''GeoBucket not found for incrementing property count.'') \<and>
   fst (increment_property_count 7 (fresh_session lagos_db)) =
     Inl (AppException ''An unexpected error occurred while incrementing the property count.'') \<and>
   fst (increment_property_count 1
          ((fresh_session lagos_db)\<lparr>outcomes := [Succeeds, RaisesOther]\<rparr>)) =
     Inl (AppException ''An unexpected error occurred while incrementing the property count.'')"
  by code_simp

lemma filter_id_map_update:
  "filter (\<lambda>r. bucket_id r = i)
     (map (\<lambda>r. if bucket_id r = i then r\<lparr>property_count := n, updated_datetime := u\<rparr> else r) rows)
   = map (\<lambda>r. r\<lparr>property_count := n, updated_datetime := u\<rparr>) (filter (\<lambda>r. bucket_id r = i) rows)"
  by (induction rows) auto









section \<open>Properties of the transaction scope\<close>

lemma in_scopeI:
  assumes "\<And>s r s'. in_transaction s \<Longrightarrow> m s = (r, s') \<Longrightarrow>
             committed s' = committed s \<and> transaction_level s' = transaction_level s \<and>
             commit_count s' = commit_count s \<and> rollback_count s' = rollback_count s"
  shows "in_scope m"
  using assms unfolding in_scope_def by blast

lemma in_scopeD:
  assumes "in_scope m" and "in_transaction s" and "m s = (r, s')"
  shows "committed s' = committed s" and "transaction_level s' = transaction_level s"
    and "commit_count s' = commit_count s" and "rollback_count s' = rollback_count s"
    and "in_transaction s'"
  using assms unfolding in_scope_def in_transaction_def by metis+

lemma in_scope_return [simp]: "in_scope (return_io x)"
  by (simp add: in_scope_def return_io_def)

lemma in_scope_raise [simp]: "in_scope (raise_io e)"
  by (simp add: in_scope_def raise_io_def)

lemma in_scope_lift [simp]: "in_scope (lift_io r)"
  by (simp add: in_scope_def lift_io_def)

lemma in_scope_library_call [simp]: "in_scope (library_call r)"
  by (cases r) (simp_all add: library_call_def)

lemma in_scope_bind:
  assumes "in_scope m" and "\<And>x. in_scope (f x)"
  shows "in_scope (bind_io m f)"
proof (rule in_scopeI)
  fix s r s'
  assume t: "in_transaction s" and b: "bind_io m f s = (r, s')"
  obtain r1 s1 where m: "m s = (r1, s1)" by (cases "m s")
  note d = in_scopeD[OF assms(1) t m]
  show "committed s' = committed s \<and> transaction_level s' = transaction_level s \<and>
        commit_count s' = commit_count s \<and> rollback_count s' = rollback_count s"
  proof (cases r1)
    case (Inl e)
    with b m d show ?thesis by (simp add: bind_io_def)
  next
    case (Inr x)
    with b m have "f x s1 = (r, s')" by (simp add: bind_io_def)
    from in_scopeD[OF assms(2) d(5) this] d show ?thesis by simp
  qed
qed

lemma in_scope_try_except:
  assumes "in_scope m" and "\<And>e. in_scope (h e)"
  shows "in_scope (try_except m h)"
proof (rule in_scopeI)
  fix s r s'
  assume t: "in_transaction s" and b: "try_except m h s = (r, s')"
  obtain r1 s1 where m: "m s = (r1, s1)" by (cases "m s")
  note d = in_scopeD[OF assms(1) t m]
  show "committed s' = committed s \<and> transaction_level s' = transaction_level s \<and>
        commit_count s' = commit_count s \<and> rollback_count s' = rollback_count s"
  proof (cases r1)
    case (Inl e)
    with b m have "h e s1 = (r, s')" by (simp add: try_except_def)
    from in_scopeD[OF assms(2) d(5) this] d show ?thesis by simp
  next
    case (Inr x)
    with b m d show ?thesis by (simp add: try_except_def)
  qed
qed

lemma in_scope_round_trip [simp]: "in_scope round_trip"
proof (rule in_scopeI)
  fix s r s'
  assume "in_transaction s" and "round_trip s = (r, s')"
  then show "committed s' = committed s \<and> transaction_level s' = transaction_level s \<and>
        commit_count s' = commit_count s \<and> rollback_count s' = rollback_count s"
    by (cases "outcomes s"; cases "hd (outcomes s)") (auto simp: round_trip_def)
qed

lemma in_scope_session_exec [simp]: "in_scope (session_exec q)"
  unfolding session_exec_def
proof (rule in_scope_bind)
  show "in_scope round_trip" by simp
  show "in_scope (\<lambda>s. (Inr (q (pending s)), s))" for x :: unit
    by (simp add: in_scope_def)
qed

lemma in_scope_session_add [simp]: "in_scope (session_add w)"
  by (simp add: in_scope_def session_add_def)

lemma in_scope_new_ulid [simp]: "in_scope new_ulid"
  by (simp add: in_scope_def new_ulid_def)

lemma in_scope_session_flush [simp]: "in_scope session_flush"
  unfolding session_flush_def
proof (rule in_scope_bind)
  show "in_scope round_trip" by simp
  show "in_scope (\<lambda>s. case apply_writes (clock s) (bucket_seq s) (unit_of_work s) (pending s) of
          Inl e \<Rightarrow> (Inl (SQLAlchemyError e), s\<lparr>unit_of_work := []\<rparr>)
        | Inr (db, next_id) \<Rightarrow>
            (Inr (), s\<lparr>pending := db, unit_of_work := [], bucket_seq := next_id\<rparr>))"
    for x :: unit
    by (auto simp: in_scope_def split: sum.splits prod.splits)
qed

lemma in_scope_one_or_none [simp]: "in_scope (one_or_none rows)"
  by (simp add: one_or_none_def split: list.splits)

lemma in_scope_wrap_sqlalchemy:
  "in_scope m \<Longrightarrow> in_scope (wrap_sqlalchemy msg m)"
  unfolding wrap_sqlalchemy_def
  by (rule in_scope_try_except) (simp_all split: exn.splits)

lemma in_scope_find_one [simp]: "in_scope (find_one_by_and_none table cond)"
  unfolding find_one_by_and_none_def
  by (intro in_scope_wrap_sqlalchemy in_scope_bind) simp_all

lemma in_scope_execute_raw [simp]: "in_scope (execute_raw q)"
  unfolding execute_raw_def by (intro in_scope_wrap_sqlalchemy) simp

lemma in_scope_refresh_bucket [simp]: "in_scope (session_refresh_bucket b)"
  unfolding session_refresh_bucket_def
  by (intro in_scope_bind) (simp_all split: list.splits)

lemma in_scope_refresh_property [simp]: "in_scope (session_refresh_property p)"
  unfolding session_refresh_property_def
  by (intro in_scope_bind) (simp_all split: list.splits)

lemma in_scope_save_changes:
  assumes "in_scope refresh"
  shows "in_scope (save_changes refresh)"
  unfolding save_changes_def
proof (rule in_scope_bind)
  show "in_scope (\<lambda>s. if in_transaction s then session_flush s else session_commit s)"
  proof (rule in_scopeI)
    fix s r s'
    assume "in_transaction s"
      and "(if in_transaction s then session_flush s else session_commit s) = (r, s')"
    then show "committed s' = committed s \<and> transaction_level s' = transaction_level s \<and>
        commit_count s' = commit_count s \<and> rollback_count s' = rollback_count s"
      using in_scopeD[OF in_scope_session_flush, of s r s'] by simp
  qed
qed (rule assms)

lemma in_scope_create_geo_bucket [simp]: "in_scope (create_geo_bucket b)"
  unfolding create_geo_bucket_def
  by (intro in_scope_wrap_sqlalchemy in_scope_bind in_scope_save_changes) simp_all

lemma in_scope_create_property_row [simp]: "in_scope (create_property_row p)"
  unfolding create_property_row_def Let_def
  by (intro in_scope_wrap_sqlalchemy in_scope_bind in_scope_save_changes) simp_all

lemma in_scope_find_or_create_bucket [simp]:
  "in_scope (find_or_create_bucket h3 c name nname parent)"
  unfolding find_or_create_bucket_def
  by (intro in_scope_try_except in_scope_bind)
     (auto split: option.splits exn.splits prod.splits intro!: in_scope_bind)

lemma in_scope_increment [simp]: "in_scope (increment_property_count i)"
  unfolding increment_property_count_def increment_load_def increment_store_def Let_def
  by (intro in_scope_try_except in_scope_bind in_scope_save_changes)
     (auto split: option.splits exn.splits)

lemma in_scope_handlers [simp]: "in_scope (create_property_handlers e)"
  by (simp add: create_property_handlers_def split: exn.splits)

lemma in_scope_index_resolve_persist [simp]:
  "in_scope (index_resolve_persist h3 seps payload)"
  unfolding index_resolve_persist_def Let_def
  by (intro in_scope_bind) simp_all


lemma session_commit_cases:
  assumes "session_commit s = (r, s')"
  shows "(\<exists>e. r = Inl e \<and> committed s' = committed s \<and> commit_count s' = commit_count s \<and>
               rollback_count s' = rollback_count s) \<or>
         (r = Inr () \<and> committed s' = pending s' \<and> commit_count s' = commit_count s + 1 \<and>
               rollback_count s' = rollback_count s)"
proof -
  obtain r1 s1 where f: "session_flush s = (r1, s1)" by (cases "session_flush s")
  have k: "committed s1 = committed s \<and> commit_count s1 = commit_count s \<and>
           rollback_count s1 = rollback_count s"
    using f
    by (cases "outcomes s"; cases "hd (outcomes s)")
       (auto simp: session_flush_def bind_io_def round_trip_def split: sum.splits prod.splits)
  show ?thesis
  proof (cases r1)
    case (Inl e)
    with assms f k show ?thesis by (auto simp: session_commit_def bind_io_def)
  next
    case (Inr u)
    with assms f k show ?thesis
      by (cases "outcomes s1"; cases "hd (outcomes s1)")
         (auto simp: session_commit_def bind_io_def round_trip_def)
  qed
qed

lemma round_trip_state:
  "round_trip s = (r, s') \<Longrightarrow> s' = s\<lparr>outcomes := tl (outcomes s)\<rparr>"
  by (cases "outcomes s"; cases "hd (outcomes s)") (auto simp: round_trip_def)

lemma session_exec_result:
  "session_exec q s = (Inr x, s') \<Longrightarrow> x = q (pending s) \<and> s' = s\<lparr>outcomes := tl (outcomes s)\<rparr>"
  by (auto simp: session_exec_def bind_io_def split: prod.splits sum.splits
      dest!: round_trip_state)

lemma session_exec_state:
  "session_exec q s = (r, s') \<Longrightarrow> s' = s\<lparr>outcomes := tl (outcomes s)\<rparr>"
  by (auto simp: session_exec_def bind_io_def split: prod.splits sum.splits
      dest!: round_trip_state)

lemma session_flush_result:
  "session_flush s = (Inr x, s') \<Longrightarrow>
   \<exists>db n. apply_writes (clock s) (bucket_seq s) (unit_of_work s) (pending s) = Inr (db, n) \<and>
     s' = s\<lparr>outcomes := tl (outcomes s), pending := db, unit_of_work := [], bucket_seq := n\<rparr>"
  by (auto simp: session_flush_def bind_io_def split: prod.splits sum.splits
      dest!: round_trip_state)

lemma find_one_result:
  "find_one_by_and_none table cond s = (Inr x, s') \<Longrightarrow>
   s' = s\<lparr>outcomes := tl (outcomes s)\<rparr> \<and>
   (case x of None \<Rightarrow> filter cond (table (pending s)) = []
            | Some y \<Rightarrow> filter cond (table (pending s)) = [y])"
  by (auto simp: find_one_by_and_none_def wrap_sqlalchemy_def try_except_def bind_io_def
      one_or_none_def return_io_def raise_io_def
      split: prod.splits sum.splits list.splits exn.splits dest!: session_exec_result)

lemma execute_raw_result:
  "execute_raw q s = (Inr x, s') \<Longrightarrow> x = q (pending s) \<and> s' = s\<lparr>outcomes := tl (outcomes s)\<rparr>"
  by (auto simp: execute_raw_def wrap_sqlalchemy_def try_except_def raise_io_def
      split: prod.splits sum.splits exn.splits dest!: session_exec_result)

lemma save_changes_in_transaction:
  assumes "in_transaction s" and "save_changes refresh s = (Inr x, s')"
  shows "\<exists>s1. session_flush s = (Inr (), s1) \<and> refresh s1 = (Inr x, s')"
  using assms
  by (auto simp: save_changes_def bind_io_def split: prod.splits sum.splits)


lemma session_refresh_bucket_state:
  "session_refresh_bucket b s = (r, s') \<Longrightarrow> s' = s\<lparr>outcomes := tl (outcomes s)\<rparr>"
  by (auto simp: session_refresh_bucket_def bind_io_def raise_io_def return_io_def
      split: prod.splits sum.splits list.splits dest!: session_exec_state)

lemma session_refresh_property_state:
  "session_refresh_property b s = (r, s') \<Longrightarrow> s' = s\<lparr>outcomes := tl (outcomes s)\<rparr>"
  by (auto simp: session_refresh_property_def bind_io_def raise_io_def return_io_def
      split: prod.splits sum.splits list.splits dest!: session_exec_state)

lemma bind_io_success:
  "bind_io m f s = (Inr y, s') \<Longrightarrow> \<exists>x s1. m s = (Inr x, s1) \<and> f x s1 = (Inr y, s')"
  by (auto simp: bind_io_def split: prod.splits sum.splits)

lemma wrap_sqlalchemy_success:
  "wrap_sqlalchemy msg m s = (Inr y, s') \<Longrightarrow> m s = (Inr y, s')"
  by (auto simp: wrap_sqlalchemy_def try_except_def raise_io_def
      split: prod.splits sum.splits exn.splits)

lemma increment_success:
  assumes "in_transaction s" and "unit_of_work s = []"
      and "increment_property_count i s = (Inr (), s')"
  shows "\<exists>b. filter (\<lambda>r. bucket_id r = i) (geo_buckets (pending s)) = [b] \<and>
             unit_of_work s' = [] \<and> in_transaction s' \<and>
             properties (pending s') = properties (pending s) \<and>
             geo_buckets (pending s') =
               map (\<lambda>r. if bucket_id r = i
                        then r\<lparr>property_count := property_count b + 1,
                               updated_datetime := Some (clock s)\<rparr>
                        else r) (geo_buckets (pending s))"
proof -
  from assms(3) have "bind_io (increment_load i) increment_store s = (Inr (), s')"
    by (auto simp: increment_property_count_def try_except_def raise_io_def
        split: prod.splits sum.splits exn.splits)
  from bind_io_success[OF this]
  obtain b s1 where l: "increment_load i s = (Inr b, s1)"
    and st: "increment_store b s1 = (Inr (), s')" by blast
  from l obtain found where f: "find_one_by_and_none geo_buckets (\<lambda>b. bucket_id b = i) s =
      (Inr found, s1)" and fb: "found = Some b"
    by (auto simp: increment_load_def bind_io_def raise_io_def return_io_def
        split: prod.splits sum.splits option.splits)
  from find_one_result[OF f] fb
  have s1: "s1 = s\<lparr>outcomes := tl (outcomes s)\<rparr>"
    and fl: "filter (\<lambda>r. bucket_id r = i) (geo_buckets (pending s)) = [b]" by simp_all
  from fl have "b \<in> set (filter (\<lambda>r. bucket_id r = i) (geo_buckets (pending s)))" by simp
  then have bi: "bucket_id b = i" by simp
  let ?b' = "b\<lparr>property_count := property_count b + 1\<rparr>"
  let ?s2 = "s1\<lparr>unit_of_work := unit_of_work s1 @ [UpdateBucketCount ?b']\<rparr>"
  from st obtain x where sv: "save_changes (session_refresh_bucket ?b') ?s2 = (Inr x, s')"
    by (auto simp: increment_store_def Let_def bind_io_def session_add_def return_io_def
        split: prod.splits sum.splits)
  have t2: "in_transaction ?s2" using assms(1) s1 by (simp add: in_transaction_def)
  from save_changes_in_transaction[OF t2 sv]
  obtain s4 where fl4: "session_flush ?s2 = (Inr (), s4)"
    and rf: "session_refresh_bucket ?b' s4 = (Inr x, s')" by blast
  from session_flush_result[OF fl4] assms(2) s1
  have s4: "s4 = ?s2\<lparr>outcomes := tl (outcomes ?s2),
                      pending := (pending s)\<lparr>geo_buckets :=
                        map (\<lambda>r. if bucket_id r = i
                                 then r\<lparr>property_count := property_count b + 1,
                                        updated_datetime := Some (clock s)\<rparr>
                                 else r) (geo_buckets (pending s))\<rparr>,
                      unit_of_work := [], bucket_seq := bucket_seq s\<rparr>"
    by (auto simp: apply_write_def bi)
  from rf have s': "s' = s4\<lparr>outcomes := tl (outcomes s4)\<rparr>"
    by (rule session_refresh_bucket_state)
  from fl s' s4 s1 assms(1) show ?thesis
    by (simp add: in_transaction_def)
qed


lemma try_except_raising_success:
  assumes "\<And>e s. \<exists>e'. h e s = (Inl e', s)"
      and "try_except m h s = (Inr y, s')"
  shows "m s = (Inr y, s')"
proof (cases "m s")
  case (Pair r s1)
  show ?thesis
  proof (cases r)
    case (Inl e)
    from assms(1)[of e s1] obtain e' where "h e s1 = (Inl e', s1)" by blast
    with Pair Inl assms(2) show ?thesis by (simp add: try_except_def)
  next
    case (Inr x)
    with Pair assms(2) show ?thesis by (simp add: try_except_def)
  qed
qed

lemma create_property_row_success:
  assumes "in_transaction s" and "unit_of_work s = []"
      and "create_property_row schema s = (Inr p, s')"
  shows "unit_of_work s' = [] \<and> in_transaction s' \<and> clock s' = clock s \<and>
         geo_buckets (pending s') = geo_buckets (pending s) \<and>
         properties (pending s') = properties (pending s) @ [p] \<and>
         property_id p = ulid_seq s \<and> geo_bucket_id p = geo_bucket_id schema \<and>
         (\<forall>g. geo_bucket_id schema = Some g \<longrightarrow> g \<in> bucket_id ` set (geo_buckets (pending s)))"
proof -
  let ?obj = "schema\<lparr>property_id := ulid_seq s\<rparr>"
  let ?s2 = "s\<lparr>ulid_seq := ulid_seq s + 1, unit_of_work := [InsertProperty ?obj]\<rparr>"
  from wrap_sqlalchemy_success[OF assms(3)[unfolded create_property_row_def]] assms(2)
  have sv: "save_changes (session_refresh_property ?obj) ?s2 = (Inr p, s')"
    by (simp add: bind_io_def new_ulid_def Let_def session_add_def)
  have t2: "in_transaction ?s2" using assms(1) by (simp add: in_transaction_def)
  from save_changes_in_transaction[OF t2 sv]
  obtain s4 where fl4: "session_flush ?s2 = (Inr (), s4)"
    and rf: "session_refresh_property ?obj s4 = (Inr p, s')" by blast
  let ?new = "?obj\<lparr>property_created := clock s\<rparr>"
  from session_flush_result[OF fl4]
  have aw: "\<forall>r\<in>set (properties (pending s)). property_id r \<noteq> ulid_seq s"
    and fk: "\<forall>g. geo_bucket_id schema = Some g \<longrightarrow> g \<in> bucket_id ` set (geo_buckets (pending s))"
    and s4: "s4 = ?s2\<lparr>outcomes := tl (outcomes s),
                      pending := (pending s)\<lparr>properties := properties (pending s) @ [?new]\<rparr>,
                      unit_of_work := [], bucket_seq := bucket_seq s\<rparr>"
    by (auto simp: apply_write_def split: if_splits option.splits)
  from aw have fe: "filter (\<lambda>r. property_id r = ulid_seq s) (properties (pending s)) = []"
    by (simp add: filter_empty_conv)
  from rf have s': "s' = s4\<lparr>outcomes := tl (outcomes s4)\<rparr>"
    by (rule session_refresh_property_state)
  from rf s4 fe have p: "p = ?new"
    by (auto simp: session_refresh_property_def bind_io_def return_io_def raise_io_def
        split: prod.splits sum.splits list.splits dest!: session_exec_result)
  from s' s4 p fk assms(1) show ?thesis
    by (simp add: in_transaction_def)
qed

lemma find_or_create_success:
  assumes "in_transaction s" and "unit_of_work s = []"
      and "find_or_create_bucket h3 c name nname parent s = (Inr b, s')"
  shows "unit_of_work s' = [] \<and> in_transaction s' \<and> clock s' = clock s \<and>
         ulid_seq s' = ulid_seq s \<and>
         properties (pending s') = properties (pending s) \<and>
         ((geo_buckets (pending s') = geo_buckets (pending s) \<and>
           b \<in> set (geo_buckets (pending s))) \<or>
          (geo_buckets (pending s') = geo_buckets (pending s) @ [b] \<and> property_count b = 0 \<and>
           bucket_id b \<notin> bucket_id ` set (geo_buckets (pending s))))"
proof -
  let ?s1 = "s\<lparr>outcomes := tl (outcomes s)\<rparr>"
  let ?create =
    "bind_io (library_call (h3_to_geometry h3 c))
       (\<lambda>(center_wkt, hexagon_wkt).
          bind_io (create_geo_bucket
                     \<lparr>bucket_id = 0, h3_index = c, h3_resolution = 8, parent_h3 = Some parent,
                      canonical_name = Some name, canonical_name_normalized = Some nname,
                      center_point = Some center_wkt, hexagon_boundary = Some hexagon_wkt,
                      property_count = 0, created_datetime = 0, updated_datetime = None\<rparr>)
            (\<lambda>b. return_io (from_model b)))"
  let ?pick = "\<lambda>bucket_query. case first bucket_query of
                 Some b \<Rightarrow> return_io (from_model b) | None \<Rightarrow> ?create"
  let ?fuzzy = "\<lambda>neighbors.
     bind_io (execute_raw (\<lambda>db. filter (neighbor_match h3 neighbors nname) (geo_buckets db)))
       ?pick"
  have h: "\<And>e s. \<exists>e'. (case e of
               DatabaseException _ \<Rightarrow>
                 raise_io (AppException ''Failed to find or create geo bucket'')
             | _ \<Rightarrow>
                 raise_io (AppException
                   ''An unexpected error occurred while trying find the geobucket.'')) s
             = (Inl e', s)"
    by (simp add: raise_io_def split: exn.splits)
  note m = try_except_raising_success[OF h assms(3)[unfolded find_or_create_bucket_def]]
  from bind_io_success[OF m] obtain found s1 where
    f: "find_one_by_and_none geo_buckets (\<lambda>b. h3_index b = c) s = (Inr found, s1)" and
    rest: "(case found of
              Some b \<Rightarrow> return_io (from_model b)
            | None \<Rightarrow> bind_io (library_call (get_neighbor_h3s h3 c 1)) ?fuzzy) s1 = (Inr b, s')"
    by blast
  from find_one_result[OF f] have s1: "s1 = ?s1" by simp
  show ?thesis
  proof (cases found)
    case (Some r)
    with find_one_result[OF f] have "filter (\<lambda>b. h3_index b = c) (geo_buckets (pending s)) = [r]"
      by simp
    then have "r \<in> set (filter (\<lambda>b. h3_index b = c) (geo_buckets (pending s)))" by simp
    then have "r \<in> set (geo_buckets (pending s))" by simp
    with Some rest s1 assms(1,2) show ?thesis
      by (auto simp: return_io_def from_model_id in_transaction_def)
  next
    case None
    with find_one_result[OF f] have nx: "filter (\<lambda>b. h3_index b = c) (geo_buckets (pending s)) = []"
      by simp
    from None rest
    have r1: "bind_io (library_call (get_neighbor_h3s h3 c 1)) ?fuzzy s1 = (Inr b, s')"
      by simp
    from bind_io_success[OF r1] obtain ns s2 where
      lc: "library_call (get_neighbor_h3s h3 c 1) s1 = (Inr ns, s2)" and
      r2: "bind_io (execute_raw (\<lambda>db. filter (neighbor_match h3 ns nname) (geo_buckets db)))
             ?pick s2 = (Inr b, s')"
      by blast
    from lc have s2: "s2 = s1"
      by (auto simp: library_call_def raise_io_def return_io_def split: option.splits)
    from bind_io_success[OF r2] obtain q s3 where
      ex: "execute_raw (\<lambda>db. filter (neighbor_match h3 ns nname) (geo_buckets db)) s2 = (Inr q, s3)"
      and r3: "?pick q s3 = (Inr b, s')"
      by blast
    from execute_raw_result[OF ex] s2 s1
    have q: "q = filter (neighbor_match h3 ns nname) (geo_buckets (pending s))"
      and s3: "s3 = ?s1\<lparr>outcomes := tl (outcomes ?s1)\<rparr>" by simp_all
    show ?thesis
    proof (cases q)
      case (Cons r rs)
      with q have "r \<in> set (filter (neighbor_match h3 ns nname) (geo_buckets (pending s)))"
        by (metis list.set_intros(1))
      then have "r \<in> set (geo_buckets (pending s))" by simp
      with Cons r3 s3 assms(1,2) show ?thesis
        by (auto simp: first_def return_io_def from_model_id in_transaction_def)
    next
      case Nil
      with r3 have r4: "?create s3 = (Inr b, s')"
        by (simp add: first_def)
      from bind_io_success[OF r4] obtain g s5 where
        lg: "library_call (h3_to_geometry h3 c) s3 = (Inr g, s5)" and
        r5: "(case g of (center_wkt, hexagon_wkt) \<Rightarrow>
                bind_io (create_geo_bucket
                     \<lparr>bucket_id = 0, h3_index = c, h3_resolution = 8, parent_h3 = Some parent,
                      canonical_name = Some name, canonical_name_normalized = Some nname,
                      center_point = Some center_wkt, hexagon_boundary = Some hexagon_wkt,
                      property_count = 0, created_datetime = 0, updated_datetime = None\<rparr>)
                  (\<lambda>b. return_io (from_model b))) s5 = (Inr b, s')"
        by blast
      from lg have s5: "s5 = s3"
        by (auto simp: library_call_def raise_io_def return_io_def split: option.splits)
      obtain center hex where g: "g = (center, hex)" by (cases g)
      let ?obj = "\<lparr>bucket_id = 0, h3_index = c, h3_resolution = 8, parent_h3 = Some parent,
                    canonical_name = Some name, canonical_name_normalized = Some nname,
                    center_point = Some center, hexagon_boundary = Some hex,
                    property_count = 0, created_datetime = 0, updated_datetime = None\<rparr>"
      from r5 g s5 have "bind_io (create_geo_bucket ?obj) (\<lambda>b. return_io (from_model b)) s3 =
          (Inr b, s')" by simp
      from bind_io_success[OF this] have cg: "create_geo_bucket ?obj s3 = (Inr b, s')"
        by (auto simp: return_io_def from_model_id)
      let ?s6 = "s3\<lparr>unit_of_work := [InsertBucket ?obj]\<rparr>"
      from wrap_sqlalchemy_success[OF cg[unfolded create_geo_bucket_def]] assms(2) s3
      have sv: "save_changes (session_refresh_bucket ?obj) ?s6 = (Inr b, s')"
        by (simp add: bind_io_def session_add_def)
      have t6: "in_transaction ?s6" using assms(1) s3 by (simp add: in_transaction_def)
      from save_changes_in_transaction[OF t6 sv]
      obtain s7 where fl7: "session_flush ?s6 = (Inr (), s7)"
        and rf: "session_refresh_bucket ?obj s7 = (Inr b, s')" by blast
      let ?new = "?obj\<lparr>bucket_id := bucket_seq s, created_datetime := clock s\<rparr>"
      from session_flush_result[OF fl7] s3
      have fresh: "\<forall>r\<in>set (geo_buckets (pending s)). bucket_id r \<noteq> bucket_seq s"
        and s7: "s7 = ?s6\<lparr>outcomes := tl (outcomes ?s6),
                      pending := (pending s)\<lparr>geo_buckets := geo_buckets (pending s) @ [?new]\<rparr>,
                      unit_of_work := [], bucket_seq := bucket_seq s + 1\<rparr>"
        by (auto simp: apply_write_def split: if_splits)
      from rf have s': "s' = s7\<lparr>outcomes := tl (outcomes s7)\<rparr>"
        by (rule session_refresh_bucket_state)
      from rf s7 nx have b: "b = ?new"
        by (auto simp: session_refresh_bucket_def bind_io_def return_io_def raise_io_def
            split: prod.splits sum.splits list.splits dest!: session_exec_result)
      from fresh have "bucket_seq s \<notin> bucket_id ` set (geo_buckets (pending s))" by auto
      with s' s7 s3 b assms(1) show ?thesis
        by (simp add: in_transaction_def)
    qed
  qed
qed


lemma from_values_read_id: "from_values h3 p = Inr x \<Longrightarrow> read_id x = property_id p"
  by (auto simp: from_values_def build_property_read_def extract_lat_lng_from_geometry_def
      split: if_splits option.splits prod.splits)

lemma session_commit_flushed:
  assumes "unit_of_work s = []" and "session_commit s = (Inr x, s')"
  shows "committed s' = pending s \<and> pending s' = pending s"
proof -
  from bind_io_success[OF assms(2)[unfolded session_commit_def]]
  obtain s1 where f: "session_flush s = (Inr (), s1)"
    and c: "bind_io round_trip
              (\<lambda>_ s. (Inr (), s\<lparr>committed := pending s, commit_count := commit_count s + 1\<rparr>))
              s1 = (Inr x, s')"
    by auto
  from session_flush_result[OF f] assms(1) have p1: "pending s1 = pending s" by auto
  from c p1 show ?thesis
    by (auto simp: bind_io_def split: prod.splits sum.splits dest!: round_trip_state)
qed

lemma index_resolve_persist_success:
  assumes "in_transaction s" and "unit_of_work s = []"
      and "index_resolve_persist h3 seps payload s = (Inr x, s')"
  shows "unit_of_work s' = [] \<and>
         (\<exists>p b. properties (pending s') = properties (pending s) @ [p] \<and>
                property_id p = read_id x \<and> b \<in> set (geo_buckets (pending s')) \<and>
                geo_bucket_id p = Some (bucket_id b) \<and>
                count_of (bucket_id b) (geo_buckets (pending s')) =
                  [(case count_of (bucket_id b) (geo_buckets (pending s)) of
                      [] \<Rightarrow> 0 | k # _ \<Rightarrow> k) + 1])"
proof -
  from bind_io_success[OF assms(3)[unfolded index_resolve_persist_def]]
  obtain idx s0 where
    lc: "library_call (calculate_h3_indexes h3 (req_lat payload) (req_lng payload)) s = (Inr idx, s0)"
    and r0: "(let normalized_name = normalize seps (req_location_name payload);
                 point_wkt = create_point_geometry (req_lat payload) (req_lng payload)
             in bind_io (find_or_create_bucket h3 (h3_r8 idx) (req_location_name payload)
                normalized_name (h3_r7 idx)) (\<lambda>bucket.
     bind_io (create_property_row
                \<lparr>property_id = 0,
                 title = req_title payload,
                 location_name = req_location_name payload,
                 location_name_normalized = normalized_name,
                 coordinates = point_wkt,
                 h3_index_r8 = h3_r8 idx,
                 h3_index_r9 = h3_r9 idx,
                 attributes = req_attributes payload,
                 geo_bucket_id = Some (bucket_id bucket),
                 property_created = 0,
                 property_updated = None\<rparr>) (\<lambda>property'.
     bind_io (increment_property_count (bucket_id bucket)) (\<lambda>_.
       lift_io (from_values h3 property'))))) s0 = (Inr x, s')"
    by blast
  from lc have s0: "s0 = s"
    by (auto simp: library_call_def raise_io_def return_io_def split: option.splits)
  from bind_io_success[OF r0[unfolded Let_def]] s0
  obtain bucket s1 where
    fc: "find_or_create_bucket h3 (h3_r8 idx) (req_location_name payload)
           (normalize seps (req_location_name payload)) (h3_r7 idx) s = (Inr bucket, s1)"
    and r1: "bind_io (create_property_row
                \<lparr>property_id = 0,
                 title = req_title payload,
                 location_name = req_location_name payload,
                 location_name_normalized = normalize seps (req_location_name payload),
                 coordinates = create_point_geometry (req_lat payload) (req_lng payload),
                 h3_index_r8 = h3_r8 idx,
                 h3_index_r9 = h3_r9 idx,
                 attributes = req_attributes payload,
                 geo_bucket_id = Some (bucket_id bucket),
                 property_created = 0,
                 property_updated = None\<rparr>) (\<lambda>property'.
     bind_io (increment_property_count (bucket_id bucket)) (\<lambda>_.
       lift_io (from_values h3 property'))) s1 = (Inr x, s')"
    by auto
  note L1 = find_or_create_success[OF assms(1,2) fc]
  from bind_io_success[OF r1] obtain p s2 where
    cr: "create_property_row
                \<lparr>property_id = 0,
                 title = req_title payload,
                 location_name = req_location_name payload,
                 location_name_normalized = normalize seps (req_location_name payload),
                 coordinates = create_point_geometry (req_lat payload) (req_lng payload),
                 h3_index_r8 = h3_r8 idx,
                 h3_index_r9 = h3_r9 idx,
                 attributes = req_attributes payload,
                 geo_bucket_id = Some (bucket_id bucket),
                 property_created = 0,
                 property_updated = None\<rparr> s1 = (Inr p, s2)"
    and r2: "bind_io (increment_property_count (bucket_id bucket)) (\<lambda>_.
       lift_io (from_values h3 p)) s2 = (Inr x, s')"
    by blast
  from L1 have t1: "in_transaction s1" and u1: "unit_of_work s1 = []" by simp_all
  note L2 = create_property_row_success[OF t1 u1 cr]
  from bind_io_success[OF r2] obtain s3 where
    inc: "increment_property_count (bucket_id bucket) s2 = (Inr (), s3)"
    and fv: "lift_io (from_values h3 p) s3 = (Inr x, s')"
    by auto
  from L2 have t2: "in_transaction s2" and u2: "unit_of_work s2 = []" by simp_all
  from increment_success[OF t2 u2 inc] obtain b0 where
    b0: "filter (\<lambda>r. bucket_id r = bucket_id bucket) (geo_buckets (pending s2)) = [b0]"
    and u3: "unit_of_work s3 = []"
    and p3: "properties (pending s3) = properties (pending s2)"
    and g3: "geo_buckets (pending s3) =
               map (\<lambda>r. if bucket_id r = bucket_id bucket
                        then r\<lparr>property_count := property_count b0 + 1,
                               updated_datetime := Some (clock s2)\<rparr>
                        else r) (geo_buckets (pending s2))"
    by blast
  from fv have s': "s' = s3" and fvx: "from_values h3 p = Inr x"
    by (simp_all add: lift_io_def)
  let ?rows0 = "geo_buckets (pending s)"
  let ?rows1 = "geo_buckets (pending s1)"
  from L1 have mem1: "bucket \<in> set ?rows1" by auto
  from L2 have rows2: "geo_buckets (pending s2) = ?rows1" by simp
  from mem1 have "bucket \<in> set (filter (\<lambda>r. bucket_id r = bucket_id bucket) ?rows1)"
    by simp
  with b0 rows2 have "bucket \<in> set [b0]" by simp
  then have b0e: "b0 = bucket" by simp
  let ?b = "bucket\<lparr>property_count := property_count bucket + 1,
                    updated_datetime := Some (clock s2)\<rparr>"
  have memb: "?b \<in> set (geo_buckets (pending s3))"
    using mem1 g3 rows2 b0e by (auto simp: image_iff intro!: bexI[of _ bucket])
  have cnt: "count_of (bucket_id bucket) (geo_buckets (pending s3)) = [property_count bucket + 1]"
    using g3 b0 b0e by (simp add: count_of_def filter_id_map_update)
  have prev: "(case count_of (bucket_id bucket) ?rows0 of [] \<Rightarrow> 0 | k # _ \<Rightarrow> k) =
              property_count bucket"
  proof -
    from L1 consider
      (old) "?rows1 = ?rows0" |
      (new) "?rows1 = ?rows0 @ [bucket]" "property_count bucket = 0"
            "bucket_id bucket \<notin> bucket_id ` set ?rows0"
      by blast
    then show ?thesis
    proof cases
      case old
      with b0 b0e rows2 show ?thesis by (simp add: count_of_def)
    next
      case new
      from new(3) have "\<forall>r\<in>set ?rows0. bucket_id r \<noteq> bucket_id bucket"
        by (metis image_eqI)
      then have "filter (\<lambda>r. bucket_id r = bucket_id bucket) ?rows0 = []"
        by (simp add: filter_empty_conv)
      with new(2) show ?thesis by (simp add: count_of_def)
    qed
  qed
  have props: "properties (pending s3) = properties (pending s) @ [p]"
    using p3 L2 L1 by simp
  have gid: "geo_bucket_id p = Some (bucket_id ?b)" using L2 by simp
  from from_values_read_id[OF fvx] props memb gid cnt prev u3 s'
  show ?thesis
    by (intro conjI exI[of _ p] exI[of _ ?b]) simp_all
qed

text \<open>
  Claim C4. \<open>create_property\<close>, called outside any transaction on a session without
  unflushed objects, opens the outermost scope. When the call raises, the committed
  rows and the number of commits are as before: nothing of the operation is visible to
  anyone else. When a step of the body raises (indexing, bucket resolution, persisting
  the listing, the increment), the call raises the same exception and the session is
  rolled back to the committed rows. When the call returns, the session has committed
  exactly once, without a rollback, and the committed rows are the rows of the
  transaction: they hold one listing more, the one returned, and it refers to a bucket
  of the committed rows whose count is one more than it was before the call (one, for
  a bucket the call created).
\<close>

theorem create_property_all_or_nothing:
  assumes "transaction_level s = 0" and "unit_of_work s = []"
      and "create_property h3 seps payload s = (r, s')"
      and "try_except (index_resolve_persist h3 seps payload) create_property_handlers
             (s\<lparr>transaction_level := 1\<rparr>) = (rb, sb)"
  shows "(\<forall>e. r = Inl e \<longrightarrow> committed s' = committed s \<and> commit_count s' = commit_count s) \<and>
         (\<forall>e. rb = Inl e \<longrightarrow> r = Inl e \<and> pending s' = committed s \<and>
                rollback_count s' = rollback_count s + 1) \<and>
         (\<forall>x. r = Inr x \<longrightarrow> rb = Inr x \<and> committed s' = pending s' \<and>
                commit_count s' = commit_count s + 1 \<and> rollback_count s' = rollback_count s \<and>
                (\<exists>p b. properties (committed s') = properties (pending s) @ [p] \<and>
                       property_id p = read_id x \<and> b \<in> set (geo_buckets (committed s')) \<and>
                       geo_bucket_id p = Some (bucket_id b) \<and>
                       count_of (bucket_id b) (geo_buckets (committed s')) =
                         [(case count_of (bucket_id b) (geo_buckets (pending s)) of
                             [] \<Rightarrow> 0 | k # _ \<Rightarrow> k) + 1])) \<and>
         transaction_level s' = 0"
proof -
  let ?body = "try_except (index_resolve_persist h3 seps payload) create_property_handlers"
  let ?s1 = "s\<lparr>transaction_level := 1\<rparr>"
  have sc: "in_scope ?body"
    by (intro in_scope_try_except) simp_all
  have t: "in_transaction ?s1"
    by (simp add: in_transaction_def)
  note d = in_scopeD[OF sc t assms(4)]
  have d': "committed sb = committed s" "commit_count sb = commit_count s"
    "rollback_count sb = rollback_count s"
    using d by simp_all
  have cp: "create_property h3 seps payload s = with_transaction ?body s"
    using assms(1) by (simp add: create_property_def transactional_def in_transaction_def)
  show ?thesis
  proof (cases rb)
    case (Inl e)
    with cp assms(1,3,4) d' show ?thesis
      by (auto simp: with_transaction_def Let_def session_rollback_def)
  next
    case (Inr x)
    have h: "\<And>e s. \<exists>e'. create_property_handlers e s = (Inl e', s :: session)"
      by (simp add: create_property_handlers_def raise_io_def split: exn.splits)
    from assms(4) Inr have "?body ?s1 = (Inr x, sb)" by simp
    from try_except_raising_success[OF h this]
    have irp: "index_resolve_persist h3 seps payload ?s1 = (Inr x, sb)" .
    have u1: "unit_of_work ?s1 = []" using assms(2) by simp
    from index_resolve_persist_success[OF t u1 irp]
    obtain p b where ub: "unit_of_work sb = []"
      and post: "properties (pending sb) = properties (pending s) @ [p]"
        "property_id p = read_id x" "b \<in> set (geo_buckets (pending sb))"
        "geo_bucket_id p = Some (bucket_id b)"
        "count_of (bucket_id b) (geo_buckets (pending sb)) =
           [(case count_of (bucket_id b) (geo_buckets (pending s)) of
               [] \<Rightarrow> 0 | k # _ \<Rightarrow> k) + 1]"
      by auto
    obtain rc sc' where c: "session_commit sb = (rc, sc')" by (cases "session_commit sb")
    from session_commit_cases[OF c] show ?thesis
    proof
      assume "\<exists>e. rc = Inl e \<and> committed sc' = committed sb \<and>
                commit_count sc' = commit_count sb \<and> rollback_count sc' = rollback_count sb"
      with Inr cp assms(1,3,4) c d' show ?thesis
        by (auto simp: with_transaction_def Let_def)
    next
      assume a: "rc = Inr () \<and> committed sc' = pending sc' \<and>
              commit_count sc' = commit_count sb + 1 \<and> rollback_count sc' = rollback_count sb"
      with c have "session_commit sb = (Inr (), sc')" by simp
      from session_commit_flushed[OF ub this]
      have cm: "committed sc' = pending sb" by simp
      from a Inr cp assms(1,3,4) c
      have r: "r = Inr x" and s': "s' = sc'\<lparr>transaction_level := 0\<rparr>"
        by (auto simp: with_transaction_def Let_def)
      have "\<exists>p b. properties (committed s') = properties (pending s) @ [p] \<and>
                   property_id p = read_id x \<and> b \<in> set (geo_buckets (committed s')) \<and>
                   geo_bucket_id p = Some (bucket_id b) \<and>
                   count_of (bucket_id b) (geo_buckets (committed s')) =
                     [(case count_of (bucket_id b) (geo_buckets (pending s)) of
                         [] \<Rightarrow> 0 | k # _ \<Rightarrow> k) + 1]"
        using post cm s' by (intro exI[of _ p] exI[of _ b]) simp
      with a r s' d' Inr show ?thesis by simp
    qed
  qed
qed

theorem create_property_all_or_nothing_witness:
  "fst (create_property example_h3 source_order flat_request (fresh_session lagos_db)) =
     Inr \<lparr>read_id = 2, read_title = ''3 Bedroom Flat'', read_location_name = ''Ikeja'',
          latitude = 1, longitude = 2, read_attributes = Some ''{}'',
          read_created_datetime = 0, read_updated_datetime = None\<rparr> \<and>
   committed (snd (create_property example_h3 source_order flat_request (fresh_session lagos_db)))
     = pending (snd (create_property example_h3 source_order flat_request
                       (fresh_session lagos_db))) \<and>
   commit_count (snd (create_property example_h3 source_order flat_request
                        (fresh_session lagos_db))) = 1 \<and>
   fst (create_property example_h3 source_order flat_request
          ((fresh_session lagos_db)\<lparr>outcomes :=
             [Succeeds, Succeeds, Succeeds, Succeeds, RaisesSql OperationalError]\<rparr>)) =
     Inl (AppException ''An unexpected error occurred while incrementing the property count.'') \<and>
   committed (snd (create_property example_h3 source_order flat_request
          ((fresh_session lagos_db)\<lparr>outcomes :=
             [Succeeds, Succeeds, Succeeds, Succeeds, RaisesSql OperationalError]\<rparr>))) = lagos_db \<and>
   pending (snd (create_property example_h3 source_order flat_request
          ((fresh_session lagos_db)\<lparr>outcomes :=
             [Succeeds, Succeeds, Succeeds, Succeeds, RaisesSql OperationalError]\<rparr>))) = lagos_db"
proof -
  let ?s = "fresh_session lagos_db"
  let ?f = "?s\<lparr>outcomes := [Succeeds, Succeeds, Succeeds, Succeeds, RaisesSql OperationalError]\<rparr>"
  let ?body = "try_except (index_resolve_persist example_h3 source_order flat_request)
                 create_property_handlers"
  let ?R = "create_property example_h3 source_order flat_request ?s"
  let ?B = "?body (?s\<lparr>transaction_level := 1\<rparr>)"
  let ?Rf = "create_property example_h3 source_order flat_request ?f"
  let ?Bf = "?body (?f\<lparr>transaction_level := 1\<rparr>)"
  have l: "transaction_level ?s = 0" "transaction_level ?f = 0"
    and u: "unit_of_work ?s = []" "unit_of_work ?f = []"
    and c: "committed ?f = lagos_db" "commit_count ?s = 0"
    by (simp_all add: fresh_session_def)
  have ok: "fst ?R = Inr \<lparr>read_id = 2, read_title = ''3 Bedroom Flat'',
          read_location_name = ''Ikeja'', latitude = 1, longitude = 2,
          read_attributes = Some ''{}'', read_created_datetime = 0,
          read_updated_datetime = None\<rparr>"
    by code_simp
  have bad: "fst ?Bf =
     Inl (AppException ''An unexpected error occurred while incrementing the property count.'')"
    by code_simp
  have e: "?R = (fst ?R, snd ?R)" "?B = (fst ?B, snd ?B)"
    "?Rf = (fst ?Rf, snd ?Rf)" "?Bf = (fst ?Bf, snd ?Bf)"
    by simp_all
  from create_property_all_or_nothing[OF l(1) u(1) e(1) e(2)] ok c(2)
  have 1: "committed (snd ?R) = pending (snd ?R) \<and> commit_count (snd ?R) = 1"
    by simp
  from create_property_all_or_nothing[OF l(2) u(2) e(3) e(4)] bad c(1)
  have 2: "fst ?Rf =
     Inl (AppException ''An unexpected error occurred while incrementing the property count.'') \<and>
     committed (snd ?Rf) = lagos_db \<and> pending (snd ?Rf) = lagos_db"
    by simp
  from ok 1 2 show ?thesis by simp
qed

section \<open>Properties of the statistics\<close>





lemma top_bucket_rows_subset: "set (top_bucket_rows n db) \<subseteq> set (geo_buckets db)"
  by (auto simp: top_bucket_rows_def dest: in_set_takeD)






text \<open>The center point that \<open>find_or_create_bucket\<close> stores is the center of the cell.\<close>

lemma h3_to_geometry_center:
  assumes "h3_to_geometry h3 cell = Some (center_wkt, hexagon_wkt)"
  shows "\<exists>lat lng. cell_to_latlng h3 cell = Some (lat, lng) \<and> center_wkt = (lng, lat)"
  using assms by (auto simp: h3_to_geometry_def split: option.splits prod.splits)



section \<open>Properties of the location names\<close>

text \<open>
  Claim C6, at the failing input "Lekki Phase 1 Lagos" (it holds no separator, so the
  order of the separators plays no part). The whitespace is collapsed before the
  patterns and the numbers are removed, so the removals leave a run of three spaces in
  the result; normalizing the result collapses the run, and the two differ.
\<close>

theorem normalize_leaves_whitespace_runs:
  "normalize source_order ''Lekki Phase 1 Lagos'' = ''lekki   lagos'' \<and>
   normalize source_order (normalize source_order ''Lekki Phase 1 Lagos'') = ''lekki lagos''"
  by code_simp

section \<open>Properties of the indexing\<close>

text \<open>
  Claim C9, as stated, at a concrete input: latitude 100 and longitude 200 lie outside
  the domain, and with a library that answers for them \<open>calculate_h3_indexes\<close> returns
  cell identifiers; it makes no check of its own.
\<close>

theorem index_out_of_range_counterexample:
  "\<not> valid_latitude 100 \<and> \<not> valid_longitude 200 \<and>
   calculate_h3_indexes example_h3 100 200 = Some \<lparr>h3_r7 = 7, h3_r8 = 8, h3_r9 = 9\<rparr>"
  by (simp add: valid_latitude_def valid_longitude_def calculate_h3_indexes_def example_h3_def)

text \<open>
  Claim C9, amended. \<open>calculate_h3_indexes\<close> is a function of the coordinate and the
  library (the same input gives the same cells); it returns cells exactly when the
  library returns a cell at each of the resolutions 7, 8 and 9, and then returns those
  three cells, whatever the coordinate; it raises only where the library does. A
  coordinate outside latitude [-90, 90] or longitude [-180, 180] is rejected before
  indexing, by the validation of the request payload: a validated payload carries the
  coordinate it was given, within the bounds.
\<close>

theorem index_total_where_library_answers:
  "(calculate_h3_indexes h3 lat lng \<noteq> None \<longleftrightarrow>
      latlng_to_cell h3 lat lng 7 \<noteq> None \<and> latlng_to_cell h3 lat lng 8 \<noteq> None \<and>
      latlng_to_cell h3 lat lng 9 \<noteq> None) \<and>
   (calculate_h3_indexes h3 lat lng = Some idx \<longrightarrow>
      latlng_to_cell h3 lat lng 7 = Some (h3_r7 idx) \<and>
      latlng_to_cell h3 lat lng 8 = Some (h3_r8 idx) \<and>
      latlng_to_cell h3 lat lng 9 = Some (h3_r9 idx)) \<and>
   (validate_create_request t l lat lng a = Inr payload \<longrightarrow>
      req_lat payload = lat \<and> req_lng payload = lng \<and> valid_latitude lat \<and> valid_longitude lng) \<and>
   (\<not> (valid_latitude lat \<and> valid_longitude lng) \<longrightarrow>
      validate_create_request t l lat lng a = Inl ValidationError)"
  by (auto simp: calculate_h3_indexes_def validate_create_request_def Let_def
      split: option.splits if_splits)

theorem index_total_where_library_answers_witness:
  "calculate_h3_indexes example_h3 (13 / 2) (7 / 2) = Some \<lparr>h3_r7 = 7, h3_r8 = 8, h3_r9 = 9\<rparr> \<and>
   latlng_to_cell example_h3 (13 / 2) (7 / 2) 8 = Some 8 \<and>
   validate_create_request ''Flat'' ''Lagos'' (13 / 2) (7 / 2) None =
     Inr \<lparr>req_title = ''Flat'', req_location_name = ''Lagos'', req_lat = 13 / 2,
          req_lng = 7 / 2, req_attributes = None\<rparr> \<and>
   valid_latitude (13 / 2) \<and> valid_longitude (7 / 2) \<and>
   validate_create_request ''Flat'' ''Lagos'' 95 (7 / 2) None = Inl ValidationError"
proof -
  have c: "calculate_h3_indexes example_h3 (13 / 2) (7 / 2) =
           Some \<lparr>h3_r7 = 7, h3_r8 = 8, h3_r9 = 9\<rparr>"
    by (simp add: calculate_h3_indexes_def example_h3_def)
  have v: "validate_create_request ''Flat'' ''Lagos'' (13 / 2) (7 / 2) None =
     Inr \<lparr>req_title = ''Flat'', req_location_name = ''Lagos'', req_lat = 13 / 2,
          req_lng = 7 / 2, req_attributes = None\<rparr>"
    by (simp add: validate_create_request_def strip_whitespace_def is_white_space_def valid_latitude_def
        valid_longitude_def)
  have n: "\<not> (valid_latitude 95 \<and> valid_longitude (7 / 2))"
    by (simp add: valid_latitude_def)
  from index_total_where_library_answers[of example_h3 "13 / 2" "7 / 2"
      "\<lparr>h3_r7 = 7, h3_r8 = 8, h3_r9 = 9\<rparr>" "''Flat''" "''Lagos''" None
      "\<lparr>req_title = ''Flat'', req_location_name = ''Lagos'', req_lat = 13 / 2,
          req_lng = 7 / 2, req_attributes = None\<rparr>"] c v
  have 1: "latlng_to_cell example_h3 (13 / 2) (7 / 2) 8 = Some 8 \<and>
           valid_latitude (13 / 2) \<and> valid_longitude (7 / 2)"
    by simp
  from index_total_where_library_answers[of example_h3 95 "7 / 2" _ "''Flat''" "''Lagos''" None] n
  have 2: "validate_create_request ''Flat'' ''Lagos'' 95 (7 / 2) None = Inl ValidationError"
    by blast
  from c v 1 2 show ?thesis by simp
qed

section \<open>Properties of \<open>create_property_if_not_exists\<close>\<close>

text \<open>
  Claim C10, as stated, at a concrete input: two stored listings have the title of the
  payload. The lookup by title raises \<open>MultipleResultsFound\<close>, and the call raises
  instead of returning an existing listing.
\<close>

theorem duplicate_title_counterexample:
  "map title [flat_listing, flat_listing\<lparr>property_id := 2\<rparr>] =
     [req_title flat_request, req_title flat_request] \<and>
   fst (create_property_if_not_exists example_h3 source_order flat_request
     (fresh_session (lagos_db\<lparr>properties := [flat_listing, flat_listing\<lparr>property_id := 2\<rparr>]\<rparr>))) =
   Inl (AppException ''Failed to create property listing.'')"
  by code_simp

lemma answered_prefix:
  assumes "\<forall>x\<in>set (take 3 os). x = Succeeds"
  shows "os = [] \<or> os = [Succeeds] \<or> os = [Succeeds, Succeeds] \<or>
         (\<exists>rest. os = Succeeds # Succeeds # Succeeds # rest)"
proof (cases os)
  case Nil
  then show ?thesis by simp
next
  case (Cons a as)
  note A = Cons
  show ?thesis
  proof (cases as)
    case Nil
    with A assms show ?thesis by simp
  next
    case (Cons b bs)
    note B = Cons
    show ?thesis
    proof (cases bs)
      case Nil
      with A B assms show ?thesis by simp
    next
      case (Cons c cs)
      with A B assms show ?thesis by simp
    qed
  qed
qed

lemma from_values_error:
  "from_values h3 p = Inl e \<Longrightarrow>
   e = ValidationError \<or>
   e = ValueError ''Failed to determine valid latitude/longitude for property''"
  by (auto simp: from_values_def build_property_read_def
           split: prod.splits if_splits option.splits)

lemma read_handlers:
  assumes "from_values h3 p = Inl e"
  shows "create_property_handlers e s =
           (Inl (AppException
              ''An unexpected error occurred while creating the property listing.''), s)"
  using from_values_error[OF assms]
  by (auto simp: create_property_handlers_def raise_io_def)

text \<open>
  Claim C10, amended. On a session outside any transaction, with no unflushed object
  and a store that answers: when exactly one stored listing has the title of the
  payload, \<open>create_property_if_not_exists\<close> returns that listing as
  \<open>PropertyRead.from_values\<close> renders it, and makes three round trips to the store and
  no other, the lookup by title and the two of the commit: no bucket is looked up. (A
  row that \<open>from_values\<close> cannot render makes the call raise after the lookup by
  title, its one round trip.) When two or more stored listings have that title, the
  call raises \<open>AppException\<close> "Failed to create property listing." after the lookup by
  title. In each case the store is left as it was: the committed rows and the rows
  of the session are unchanged, and no bucket id and no listing id is drawn, whatever
  the coordinates, the location name and the attributes of the payload.
\<close>

theorem create_if_not_exists_returns_the_one_existing:
  assumes "transaction_level s = 0" and "unit_of_work s = []" and "pending s = committed s"
      and "\<forall>x\<in>set (take 3 (outcomes s)). x = Succeeds"
  shows "(filter (\<lambda>p. title p = req_title payload) (properties (pending s)) = [p] \<longrightarrow>
            (case from_values h3 p of
               Inr x \<Rightarrow>
                 fst (create_property_if_not_exists h3 seps payload s) = Inr x \<and>
                 outcomes (snd (create_property_if_not_exists h3 seps payload s)) =
                   drop 3 (outcomes s)
             | Inl e \<Rightarrow>
                 fst (create_property_if_not_exists h3 seps payload s) =
                   Inl (AppException
                     ''An unexpected error occurred while creating the property listing.'') \<and>
                 outcomes (snd (create_property_if_not_exists h3 seps payload s)) =
                   drop 1 (outcomes s)) \<and>
            committed (snd (create_property_if_not_exists h3 seps payload s)) = committed s \<and>
            pending (snd (create_property_if_not_exists h3 seps payload s)) = pending s \<and>
            bucket_seq (snd (create_property_if_not_exists h3 seps payload s)) = bucket_seq s \<and>
            ulid_seq (snd (create_property_if_not_exists h3 seps payload s)) = ulid_seq s) \<and>
         (2 \<le> length (filter (\<lambda>p. title p = req_title payload) (properties (pending s))) \<longrightarrow>
            fst (create_property_if_not_exists h3 seps payload s) =
              Inl (AppException ''Failed to create property listing.'') \<and>
            outcomes (snd (create_property_if_not_exists h3 seps payload s)) =
              drop 1 (outcomes s) \<and>
            committed (snd (create_property_if_not_exists h3 seps payload s)) = committed s \<and>
            pending (snd (create_property_if_not_exists h3 seps payload s)) = pending s \<and>
            bucket_seq (snd (create_property_if_not_exists h3 seps payload s)) = bucket_seq s \<and>
            ulid_seq (snd (create_property_if_not_exists h3 seps payload s)) = ulid_seq s)"
proof -
  let ?body = "try_except
          (bind_io (find_one_by_and_none properties (\<lambda>p. title p = req_title payload))
             (\<lambda>existing_property.
                case existing_property of
                  Some p \<Rightarrow> lift_io (from_values h3 p)
                | None \<Rightarrow> index_resolve_persist h3 seps payload))
          create_property_handlers"
  let ?s1 = "s\<lparr>transaction_level := 1\<rparr>"
  let ?s2 = "s\<lparr>transaction_level := 1, outcomes := drop 1 (outcomes s)\<rparr>"
  let ?R = "create_property_if_not_exists h3 seps payload s"
  have cp: "?R = with_transaction ?body s"
    using assms(1)
    by (simp add: create_property_if_not_exists_def transactional_def in_transaction_def)
  have rt: "round_trip ?s1 = (Inr (), ?s2)"
    using answered_prefix[OF assms(4)] by (auto simp: round_trip_def)
  have look: "find_one_by_and_none properties (\<lambda>p. title p = req_title payload) ?s1 =
                (Inr (Some p), ?s2)"
    if "filter (\<lambda>p. title p = req_title payload) (properties (pending s)) = [p]"
    using that rt
    by (simp add: find_one_by_and_none_def wrap_sqlalchemy_def try_except_def bind_io_def
        session_exec_def one_or_none_def return_io_def)
  have many: "?body ?s1 = (Inl (AppException ''Failed to create property listing.''), ?s2)"
    if "2 \<le> length (filter (\<lambda>p. title p = req_title payload) (properties (pending s)))"
  proof -
    from that obtain a b rest where
      "filter (\<lambda>p. title p = req_title payload) (properties (pending s)) = a # b # rest"
      by (cases "filter (\<lambda>p. title p = req_title payload) (properties (pending s))";
          cases "tl (filter (\<lambda>p. title p = req_title payload) (properties (pending s)))")
         auto
    with rt show ?thesis
      by (simp add: find_one_by_and_none_def wrap_sqlalchemy_def try_except_def bind_io_def
          session_exec_def one_or_none_def raise_io_def create_property_handlers_def)
  qed
  have fail: "fst (with_transaction ?body s) = Inl e \<and>
              outcomes (snd (with_transaction ?body s)) = drop 1 (outcomes s) \<and>
              committed (snd (with_transaction ?body s)) = committed s \<and>
              pending (snd (with_transaction ?body s)) = pending s \<and>
              bucket_seq (snd (with_transaction ?body s)) = bucket_seq s \<and>
              ulid_seq (snd (with_transaction ?body s)) = ulid_seq s"
    if "?body ?s1 = (Inl e, ?s2)" for e
    using that assms(1,3)
    by (simp add: with_transaction_def Let_def session_rollback_def)
  have ok: "fst (with_transaction ?body s) = Inr x \<and>
              outcomes (snd (with_transaction ?body s)) = drop 3 (outcomes s) \<and>
              committed (snd (with_transaction ?body s)) = committed s \<and>
              pending (snd (with_transaction ?body s)) = pending s \<and>
              bucket_seq (snd (with_transaction ?body s)) = bucket_seq s \<and>
              ulid_seq (snd (with_transaction ?body s)) = ulid_seq s"
    if "?body ?s1 = (Inr x, ?s2)" for x
    using that assms(1,2,3) answered_prefix[OF assms(4)]
    by (auto simp add: with_transaction_def Let_def session_commit_def session_flush_def
        bind_io_def round_trip_def)
  have one: "(case from_values h3 p of
               Inr x \<Rightarrow> fst ?R = Inr x \<and> outcomes (snd ?R) = drop 3 (outcomes s)
             | Inl e \<Rightarrow>
                 fst ?R = Inl (AppException
                     ''An unexpected error occurred while creating the property listing.'') \<and>
                 outcomes (snd ?R) = drop 1 (outcomes s)) \<and>
            committed (snd ?R) = committed s \<and> pending (snd ?R) = pending s \<and>
            bucket_seq (snd ?R) = bucket_seq s \<and> ulid_seq (snd ?R) = ulid_seq s"
    if f: "filter (\<lambda>p. title p = req_title payload) (properties (pending s)) = [p]"
  proof (cases "from_values h3 p")
    case (Inl e)
    have "?body ?s1 = (Inl (AppException
             ''An unexpected error occurred while creating the property listing.''), ?s2)"
      using look[OF f] Inl read_handlers[OF Inl]
      by (simp add: try_except_def bind_io_def lift_io_def)
    from fail[OF this] Inl cp show ?thesis by simp
  next
    case (Inr x)
    have "?body ?s1 = (Inr x, ?s2)"
      using look[OF f] Inr by (simp add: try_except_def bind_io_def lift_io_def)
    from ok[OF this] Inr cp show ?thesis by simp
  qed
  have two: "fst ?R = Inl (AppException ''Failed to create property listing.'') \<and>
            outcomes (snd ?R) = drop 1 (outcomes s) \<and>
            committed (snd ?R) = committed s \<and> pending (snd ?R) = pending s \<and>
            bucket_seq (snd ?R) = bucket_seq s \<and> ulid_seq (snd ?R) = ulid_seq s"
    if "2 \<le> length (filter (\<lambda>p. title p = req_title payload) (properties (pending s)))"
    using fail[OF many[OF that]] cp by simp
  from one two show ?thesis by blast
qed

theorem create_if_not_exists_returns_the_one_existing_witness:
  "fst (create_property_if_not_exists example_h3 source_order flat_request
          ((fresh_session lagos_db)\<lparr>outcomes := [Succeeds, Succeeds, Succeeds, RaisesOther]\<rparr>)) =
     Inr \<lparr>read_id = 1, read_title = ''3 Bedroom Flat'', read_location_name = ''Lagos'',
          latitude = 13 / 2, longitude = 7 / 2, read_attributes = None,
          read_created_datetime = 0, read_updated_datetime = None\<rparr> \<and>
   outcomes (snd (create_property_if_not_exists example_h3 source_order flat_request
          ((fresh_session lagos_db)\<lparr>outcomes := [Succeeds, Succeeds, Succeeds, RaisesOther]\<rparr>))) =
     [RaisesOther] \<and>
   pending (snd (create_property_if_not_exists example_h3 source_order flat_request
          ((fresh_session lagos_db)\<lparr>outcomes := [Succeeds, Succeeds, Succeeds, RaisesOther]\<rparr>))) =
     lagos_db \<and>
   committed (snd (create_property_if_not_exists example_h3 source_order flat_request
          ((fresh_session lagos_db)\<lparr>outcomes := [Succeeds, Succeeds, Succeeds, RaisesOther]\<rparr>))) =
     lagos_db \<and>
   fst (create_property_if_not_exists example_h3 source_order flat_request
          (fresh_session (lagos_db\<lparr>properties :=
             [flat_listing, flat_listing\<lparr>property_id := 2\<rparr>]\<rparr>))) =
     Inl (AppException ''Failed to create property listing.'') \<and>
   pending (snd (create_property_if_not_exists example_h3 source_order flat_request
          (fresh_session (lagos_db\<lparr>properties :=
             [flat_listing, flat_listing\<lparr>property_id := 2\<rparr>]\<rparr>)))) =
     lagos_db\<lparr>properties := [flat_listing, flat_listing\<lparr>property_id := 2\<rparr>]\<rparr>"
proof -
  let ?s = "(fresh_session lagos_db)\<lparr>outcomes := [Succeeds, Succeeds, Succeeds, RaisesOther]\<rparr>"
  let ?d = "fresh_session (lagos_db\<lparr>properties := [flat_listing, flat_listing\<lparr>property_id := 2\<rparr>]\<rparr>)"
  let ?x = "\<lparr>read_id = 1, read_title = ''3 Bedroom Flat'', read_location_name = ''Lagos'',
          latitude = 13 / 2, longitude = 7 / 2, read_attributes = None,
          read_created_datetime = 0, read_updated_datetime = None\<rparr>"
  have a: "transaction_level ?s = 0" "unit_of_work ?s = []" "pending ?s = committed ?s"
    "\<forall>x\<in>set (take 3 (outcomes ?s)). x = Succeeds"
    by (simp_all add: fresh_session_def)
  have b: "transaction_level ?d = 0" "unit_of_work ?d = []" "pending ?d = committed ?d"
    "\<forall>x\<in>set (take 3 (outcomes ?d)). x = Succeeds"
    by (simp_all add: fresh_session_def)
  have one: "filter (\<lambda>p. title p = req_title flat_request) (properties (pending ?s)) =
             [flat_listing]"
    by (simp add: fresh_session_def lagos_db_def flat_listing_def flat_request_def)
  have fv: "from_values example_h3 flat_listing = Inr ?x"
    by (simp add: from_values_def build_property_read_def extract_lat_lng_from_geometry_def
        flat_listing_def valid_latitude_def valid_longitude_def)
  have two: "2 \<le> length (filter (\<lambda>p. title p = req_title flat_request) (properties (pending ?d)))"
    by (simp add: fresh_session_def lagos_db_def flat_listing_def flat_request_def)
  have p: "pending ?s = lagos_db" "committed ?s = lagos_db"
    "pending ?d = lagos_db\<lparr>properties := [flat_listing, flat_listing\<lparr>property_id := 2\<rparr>]\<rparr>"
    "drop 3 (outcomes ?s) = [RaisesOther]"
    by (simp_all add: fresh_session_def)
  from create_if_not_exists_returns_the_one_existing[OF a, of flat_request flat_listing
      example_h3 source_order] one fv p
  have 1: "fst (create_property_if_not_exists example_h3 source_order flat_request ?s) = Inr ?x \<and>
           outcomes (snd (create_property_if_not_exists example_h3 source_order flat_request ?s))
             = [RaisesOther] \<and>
           pending (snd (create_property_if_not_exists example_h3 source_order flat_request ?s))
             = lagos_db \<and>
           committed (snd (create_property_if_not_exists example_h3 source_order flat_request ?s))
             = lagos_db"
    by simp
  from create_if_not_exists_returns_the_one_existing[OF b, of flat_request _ example_h3
      source_order] two p
  have 2: "fst (create_property_if_not_exists example_h3 source_order flat_request ?d) =
             Inl (AppException ''Failed to create property listing.'') \<and>
           pending (snd (create_property_if_not_exists example_h3 source_order flat_request ?d)) =
             lagos_db\<lparr>properties := [flat_listing, flat_listing\<lparr>property_id := 2\<rparr>]\<rparr>"
    by simp
  from 1 2 show ?thesis by simp
qed

section \<open>Properties of the sequence matcher\<close>

lemma run_len_le: "run_len x i \<le> Suc i"
  by (induction i) auto

lemma run_len_unpopular:
  "\<not> popular x (x ! j) \<Longrightarrow> run_len x j = prev_run x j + 1"
  by (cases j) (simp_all add: prev_run_def)

lemma run_len_popular: "popular x (x ! j) \<Longrightarrow> run_len x j = 0"
  by (cases j) simp_all

lemma flm_row_append:
  "flm_row i j2len (js1 @ js2) acc = flm_row i j2len js2 (flm_row i j2len js1 acc)"
proof (induction js1 arbitrary: acc)
  case Nil
  then show ?case by simp
next
  case (Cons j js1)
  obtain nj bi bj bs where acc: "acc = (nj, (bi, bj, bs))" by (cases acc) auto
  show ?case using Cons.IH by (simp add: acc Let_def)
qed

lemma flm_row_Cons:
  "flm_row i j2len (j # js) (nj, (bi, bj, bs)) =
     (if next_len j2len j > bs
      then flm_row i j2len js (nj(j := next_len j2len j),
             (i + 1 - next_len j2len j, j + 1 - next_len j2len j, next_len j2len j))
      else flm_row i j2len js (nj(j := next_len j2len j), (bi, bj, bs)))"
  by (simp add: next_len_def Let_def)

lemma flm_row_no_update:
  assumes "\<forall>j\<in>set js. next_len j2len j \<le> bs"
  shows "flm_row i j2len js (nj, (bi, bj, bs)) =
           ((\<lambda>j. if j \<in> set js then next_len j2len j else nj j), (bi, bj, bs))"
  using assms
proof (induction js arbitrary: nj)
  case Nil
  then show ?case by simp
next
  case (Cons j js)
  from Cons.prems have le: "\<not> next_len j2len j > bs" and rest: "\<forall>j\<in>set js. next_len j2len j \<le> bs"
    by auto
  have "flm_row i j2len (j # js) (nj, (bi, bj, bs)) =
        flm_row i j2len js (nj(j := next_len j2len j), (bi, bj, bs))"
    using le by (simp add: flm_row_Cons del: flm_row.simps)
  also have "\<dots> = ((\<lambda>j'. if j' \<in> set js then next_len j2len j'
                           else (nj(j := next_len j2len j)) j'), (bi, bj, bs))"
    by (rule Cons.IH[OF rest])
  also have "(\<lambda>j'. if j' \<in> set js then next_len j2len j' else (nj(j := next_len j2len j)) j') =
             (\<lambda>j'. if j' \<in> set (j # js) then next_len j2len j' else nj j')"
    by auto
  finally show ?case .
qed

lemma indices_split:
  assumes "i < n"
  shows "filter (\<lambda>j. x ! j = x ! i) [0 ..< n] =
           filter (\<lambda>j. x ! j = x ! i) [0 ..< i] @ [i] @ filter (\<lambda>j. x ! j = x ! i) [Suc i ..< n]"
proof -
  from assms have "[0 ..< i + (n - i)] = [0 ..< i] @ [i ..< i + (n - i)]"
    by (intro upt_add_eq_append) simp
  with assms have "[0 ..< n] = [0 ..< i] @ [i ..< n]" by simp
  also from assms have "[i ..< n] = i # [Suc i ..< n]" by (rule upt_conv_Cons)
  finally have "[0 ..< n] = [0 ..< i] @ [i] @ [Suc i ..< n]" by simp
  then have "filter (\<lambda>j. x ! j = x ! i) [0 ..< n] =
             filter (\<lambda>j. x ! j = x ! i) ([0 ..< i] @ [i] @ [Suc i ..< n])" by simp
  then show ?thesis by simp
qed


lemma diag_row:
  assumes "i < length x" and "diag_inv x i (j2len, bst)"
  shows "diag_inv x (Suc i)
           (flm_row i j2len (filter (\<lambda>j. 0 \<le> j \<and> j < length x) (b2j x (x ! i)))
              ((\<lambda>_. 0), bst))"
proof -
  obtain bi bj bs where bst: "bst = (bi, bj, bs)" by (cases bst) auto
  from assms(2) bst have inv:
    "bi = bj" "bi + bs \<le> i" "\<forall>i'<i. run_len x i' \<le> bs"
    "\<forall>j. j2len j \<le> run_len x j" "\<forall>j. j2len j \<le> prev_run x i"
    "i > 0 \<longrightarrow> j2len (i - 1) = run_len x (i - 1)"
    by (simp_all add: diag_inv_def)
  show ?thesis
  proof (cases "popular x (x ! i)")
    case True
    then have "run_len x i = 0" by (rule run_len_popular)
    with True inv bst show ?thesis
      by (auto simp: b2j_def diag_inv_def prev_run_def less_Suc_eq)
  next
    case False
    let ?P = "\<lambda>j. x ! j = x ! i"
    let ?A = "filter ?P [0 ..< i]"
    let ?C = "filter ?P [Suc i ..< length x]"
    let ?k = "run_len x i"
    have js: "filter (\<lambda>j. 0 \<le> j \<and> j < length x) (b2j x (x ! i)) = ?A @ i # ?C"
    proof -
      have "filter (\<lambda>j. 0 \<le> j \<and> j < length x) (filter ?P [0 ..< length x]) =
            filter ?P [0 ..< length x]"
        by (simp, intro filter_cong[OF refl]) auto
      with False indices_split[OF assms(1), of x] show ?thesis
        by (simp add: b2j_def)
    qed
    have N1: "next_len j2len j \<le> run_len x j" if "x ! j = x ! i" for j
    proof -
      from that False have "run_len x j = prev_run x j + 1"
        by (simp add: run_len_unpopular)
      moreover have "next_len j2len j \<le> prev_run x j + 1"
        using inv(4) by (simp add: next_len_def prev_run_def)
      ultimately show ?thesis by simp
    qed
    have ki: "?k = prev_run x i + 1" using False by (rule run_len_unpopular)
    have N2: "next_len j2len j \<le> ?k" for j
      using inv(5) ki by (simp add: next_len_def)
    have N3: "next_len j2len i = ?k"
      using inv(6) ki by (auto simp: next_len_def prev_run_def)
    have A: "\<forall>j\<in>set ?A. next_len j2len j \<le> bs"
    proof
      fix j assume "j \<in> set ?A"
      then have "j < i" "x ! j = x ! i" by auto
      with N1[of j] inv(3) show "next_len j2len j \<le> bs" by (meson le_trans)
    qed
    let ?njA = "\<lambda>j. if j \<in> set ?A then next_len j2len j else 0"
    let ?best = "if ?k > bs then (i + 1 - ?k, i + 1 - ?k, ?k) else (bi, bj, bs)"
    let ?bs' = "if ?k > bs then ?k else bs"
    have C: "\<forall>j\<in>set ?C. next_len j2len j \<le> ?bs'"
    proof
      fix j assume "j \<in> set ?C"
      from N2[of j] show "next_len j2len j \<le> ?bs'" by (cases "?k > bs") auto
    qed
    have "flm_row i j2len (?A @ i # ?C) ((\<lambda>_. 0), (bi, bj, bs)) =
          flm_row i j2len (i # ?C) (?njA, (bi, bj, bs))"
      by (simp only: flm_row_append flm_row_no_update[OF A])
    also have "\<dots> = flm_row i j2len ?C (?njA(i := ?k), ?best)"
      by (simp add: flm_row_Cons N3 del: flm_row.simps)
    also have "\<dots> = ((\<lambda>j. if j \<in> set ?C then next_len j2len j else (?njA(i := ?k)) j), ?best)"
    proof -
      obtain bi' bj' where bb: "?best = (bi', bj', ?bs')"
        by (cases "?k > bs") auto
      show ?thesis unfolding bb by (rule flm_row_no_update[OF C])
    qed
    finally have res: "flm_row i j2len (?A @ i # ?C) ((\<lambda>_. 0), (bi, bj, bs)) =
          ((\<lambda>j. if j \<in> set ?C then next_len j2len j else (?njA(i := ?k)) j), ?best)" .
    have kle: "?k \<le> Suc i" by (rule run_len_le)
    have iC: "i \<notin> set ?C" by simp
    have b1: "(if j \<in> set ?C then next_len j2len j else (?njA(i := ?k)) j) \<le> run_len x j" for j
      using N1[of j] by auto
    have b2: "(if j \<in> set ?C then next_len j2len j else (?njA(i := ?k)) j) \<le> ?k" for j
      using N2[of j] by auto
    have b3: "(if i \<in> set ?C then next_len j2len i else (?njA(i := ?k)) i) = ?k"
      using iC by simp
    have runs: "\<forall>i'<Suc i. run_len x i' \<le> ?bs'"
      using inv(3) by (auto simp: less_Suc_eq intro: le_trans)
    show ?thesis
    proof (cases "?k > bs")
      case True
      with inv(1,2) kle b1 b2 b3 runs show ?thesis
        unfolding js bst res
        by (simp add: diag_inv_def prev_run_def del: fun_upd_apply)
    next
      case False
      with inv(1,2) kle b1 b2 b3 runs show ?thesis
        unfolding js bst res
        by (simp add: diag_inv_def prev_run_def del: fun_upd_apply)
    qed
  qed
qed


lemma diag_rows:
  assumes "diag_inv x i st" and "i \<le> length x"
  shows "diag_inv x (length x) (flm_rows x x 0 (length x) [i ..< length x] st)"
  using assms
proof (induction "length x - i" arbitrary: i st)
  case 0
  then show ?case by simp
next
  case (Suc m)
  then have lt: "i < length x" by simp
  obtain j2len bst where st: "st = (j2len, bst)" by (cases st)
  from lt have up: "[i ..< length x] = i # [Suc i ..< length x]" by (rule upt_conv_Cons)
  from Suc.prems(1) st have "diag_inv x i (j2len, bst)" by simp
  from diag_row[OF lt this] have
    a: "diag_inv x (Suc i)
       (flm_row i j2len (filter (\<lambda>j. 0 \<le> j \<and> j < length x) (b2j x (x ! i))) ((\<lambda>_. 0), bst))" .
  from Suc.hyps(2) have b: "m = length x - Suc i" by simp
  from lt have c: "Suc i \<le> length x" by simp
  have
    "diag_inv x (length x)
       (flm_rows x x 0 (length x) [Suc i ..< length x]
          (flm_row i j2len (filter (\<lambda>j. 0 \<le> j \<and> j < length x) (b2j x (x ! i)))
             ((\<lambda>_. 0), bst)))"
    by (rule Suc.hyps(1)[OF b a c])
  then show ?case by (simp add: up st)
qed

lemma extend_left_diag: "extend_left x x 0 0 (p, p, k) = (0, 0, p + k)"
proof (induction p arbitrary: k)
  case 0
  then show ?case by simp
next
  case (Suc p)
  have "extend_left x x 0 0 (Suc p, Suc p, k) = extend_left x x 0 0 (p, p, k + 1)"
    by simp
  with Suc show ?case by simp
qed

lemma extend_right_diag:
  "k \<le> n \<Longrightarrow> extend_right x x n n (0, 0, k) = (0, 0, n)"
proof (induction "n - k" arbitrary: k)
  case 0
  then show ?case by simp
next
  case (Suc m)
  then have "k < n" by simp
  then have "extend_right x x n n (0, 0, k) = extend_right x x n n (0, 0, k + 1)"
    by simp
  moreover from Suc have "extend_right x x n n (0, 0, k + 1) = (0, 0, n)"
    by (intro Suc.hyps(1)) simp_all
  ultimately show ?case by simp
qed

lemma find_longest_match_self:
  "find_longest_match x x 0 (length x) 0 (length x) = (0, 0, length x)"
proof -
  have "diag_inv x 0 ((\<lambda>_. 0), (0, 0, 0))"
    by (simp add: diag_inv_def)
  from diag_rows[OF this] have
    d: "diag_inv x (length x) (flm_rows x x 0 (length x) [0 ..< length x] ((\<lambda>_. 0), (0, 0, 0)))"
    by simp
  obtain j2len bi bj bs where
    r: "flm_rows x x 0 (length x) [0 ..< length x] ((\<lambda>_. 0), (0, 0, 0)) = (j2len, (bi, bj, bs))"
    by (metis prod.exhaust)
  from d r have "bi = bj" "bi + bs \<le> length x" by (simp_all add: diag_inv_def)
  then show ?thesis
    by (simp add: find_longest_match_def r extend_left_diag extend_right_diag
        del: extend_left.simps extend_right.simps)
qed

lemma ratio_self: "x \<noteq> [] \<Longrightarrow> ratio x x = 1"
  by (simp add: ratio_def find_longest_match_self Let_def)


section \<open>Properties of the similarity\<close>

lemma is_substring_self: "is_substring x x"
  by (cases x) simp_all

lemma overlap_count_commute:
  assumes "distinct t1" and "distinct t2"
  shows "length (filter (\<lambda>t. t \<in> set t2) t1) = length (filter (\<lambda>t. t \<in> set t1) t2)"
proof -
  have "length (filter (\<lambda>t. t \<in> set t2) t1) = card ({t. t \<in> set t2} \<inter> set t1)"
    using assms(1) by (rule distinct_length_filter)
  moreover have "length (filter (\<lambda>t. t \<in> set t1) t2) = card ({t. t \<in> set t1} \<inter> set t2)"
    using assms(2) by (rule distinct_length_filter)
  moreover have "{t. t \<in> set t2} \<inter> set t1 = {t. t \<in> set t1} \<inter> set t2" by auto
  ultimately show ?thesis by simp
qed

lemma similarity_self:
  assumes "normalize seps a \<noteq> []"
  shows "similarity seps a a = 1"
proof -
  let ?n = "normalize seps a"
  let ?t = "remdups (split_ws ?n)"
  have r: "ratio ?n ?n = 1" using assms by (rule ratio_self)
  have f: "filter (\<lambda>t. t \<in> set ?t) ?t = ?t" by simp
  show ?thesis
  proof (cases "?t = []")
    case True
    with assms r show ?thesis
      by (simp add: similarity_def Let_def is_substring_self)
  next
    case False
    then have "real (length ?t) / real (length ?t) = 1" by simp
    with assms r False show ?thesis
      by (simp add: similarity_def Let_def is_substring_self f del: remdups_eq_nil_iff)
  qed
qed

lemma similarity_commute:
  assumes "ratio (normalize seps a) (normalize seps b) = ratio (normalize seps b) (normalize seps a)"
  shows "similarity seps a b = similarity seps b a"
proof -
  let ?t1 = "remdups (split_ws (normalize seps a))"
  let ?t2 = "remdups (split_ws (normalize seps b))"
  have o: "length (filter (\<lambda>t. t \<in> set ?t2) ?t1) = length (filter (\<lambda>t. t \<in> set ?t1) ?t2)"
    by (rule overlap_count_commute) simp_all
  have m: "min (length ?t1) (length ?t2) = min (length ?t2) (length ?t1)"
    by (rule min.commute)
  show ?thesis
    unfolding similarity_def Let_def assms o m
    by (auto simp del: set_remdups remdups_eq_nil_iff)
qed

text \<open>
  Claim C7, as stated, at concrete inputs: the similarity of "tide" to "diet" is 0.25 and
  that of "diet" to "tide" is 0.5 (the matcher's ratio depends on the order of its
  arguments), and the similarity of the non-empty string "street" to itself is 0 (its
  normalized form is empty).
\<close>

theorem similarity_counterexample:
  "similarity source_order ''tide'' ''diet'' = 1 / 4 \<and>
   similarity source_order ''diet'' ''tide'' = 1 / 2 \<and>
   similarity source_order ''street'' ''street'' = 0"
  by code_simp

text \<open>
  Claim C7, amended. The similarity of a string to itself is 1 when its normalized form
  is not empty and 0 when it is empty; the similarity of \<open>a\<close> to \<open>b\<close> equals that of \<open>b\<close>
  to \<open>a\<close> whenever the matcher gives the two normalized names the same ratio in both
  orders (the substring test and the token overlap do not depend on the order).
\<close>

theorem similarity_self_and_commute:
  "(normalize seps a \<noteq> [] \<longrightarrow> similarity seps a a = 1) \<and>
   (normalize seps a = [] \<longrightarrow> similarity seps a a = 0) \<and>
   (ratio (normalize seps a) (normalize seps b) = ratio (normalize seps b) (normalize seps a)
      \<longrightarrow> similarity seps a b = similarity seps b a)"
  using similarity_self similarity_commute by (auto simp: similarity_def)

theorem similarity_self_and_commute_witness:
  "similarity source_order ''Lekki Phase 1'' ''Lekki Phase 1'' = 1 \<and>
   similarity source_order ''street'' ''street'' = 0 \<and>
   similarity source_order ''Lekki'' ''Lagos'' = similarity source_order ''Lagos'' ''Lekki''"
proof -
  have 1: "normalize source_order ''Lekki Phase 1'' \<noteq> []" by code_simp
  have 2: "normalize source_order ''street'' = []" by code_simp
  have 3: "ratio (normalize source_order ''Lekki'') (normalize source_order ''Lagos'') =
           ratio (normalize source_order ''Lagos'') (normalize source_order ''Lekki'')"
    by code_simp
  from similarity_self_and_commute[of source_order "''Lekki Phase 1''"] 1
  have a: "similarity source_order ''Lekki Phase 1'' ''Lekki Phase 1'' = 1" by blast
  from similarity_self_and_commute[of source_order "''street''"] 2
  have b: "similarity source_order ''street'' ''street'' = 0" by blast
  from similarity_self_and_commute[of source_order "''Lekki''" "''Lagos''"] 3
  have c: "similarity source_order ''Lekki'' ''Lagos'' = similarity source_order ''Lagos'' ''Lekki''"
    by blast
  from a b c show ?thesis by simp
qed

section \<open>The fuel of the block search\<close>

lemma region_row_step:
  assumes "\<forall>j. j2len j \<le> i - alo" and "alo \<le> i" and "in_region alo (Suc i) acc"
  shows "in_region alo (Suc i) (flm_row i j2len js acc)"
  using assms(3)
proof (induction js arbitrary: acc)
  case Nil
  then show ?case by simp
next
  case (Cons j js)
  obtain nj bi bj bs where acc: "acc = (nj, (bi, bj, bs))" by (cases acc) auto
  have k: "next_len j2len j \<le> Suc i - alo"
    using assms(1,2) by (simp add: next_len_def le_diff_conv Suc_diff_le)
  have "in_region alo (Suc i)
          (if next_len j2len j > bs
           then (nj(j := next_len j2len j),
                 (i + 1 - next_len j2len j, j + 1 - next_len j2len j, next_len j2len j))
           else (nj(j := next_len j2len j), (bi, bj, bs)))"
    using Cons.prems k assms(2) by (auto simp: in_region_def acc)
  then show ?case
    unfolding acc flm_row_Cons by (auto intro: Cons.IH)
qed

lemma region_rows:
  assumes "in_region alo i st" and "alo \<le> i" and "i \<le> ahi"
  shows "in_region alo ahi (flm_rows a b blo bhi [i ..< ahi] st)"
  using assms
proof (induction "ahi - i" arbitrary: i st)
  case 0
  then show ?case by simp
next
  case (Suc m)
  then have lt: "i < ahi" by simp
  obtain j2len bst where st: "st = (j2len, bst)" by (cases st)
  obtain bi bj bs where bst: "bst = (bi, bj, bs)" by (cases bst) auto
  from lt have up: "[i ..< ahi] = i # [Suc i ..< ahi]" by (rule upt_conv_Cons)
  from Suc.prems(1) st bst have j: "\<forall>j. j2len j \<le> i - alo"
    and w0: "in_region alo (Suc i) ((\<lambda>_. 0), bst)"
    by (auto simp: in_region_def)
  have a: "in_region alo (Suc i)
             (flm_row i j2len (filter (\<lambda>j. blo \<le> j \<and> j < bhi) (b2j b (a ! i))) ((\<lambda>_. 0), bst))"
    by (rule region_row_step[OF j Suc.prems(2) w0])
  from Suc.hyps(2) have b: "m = ahi - Suc i" by simp
  from Suc.prems(2) have c: "alo \<le> Suc i" by simp
  from lt have d: "Suc i \<le> ahi" by simp
  show ?case
    unfolding up st using Suc.hyps(1)[OF b a c d] by simp
qed

lemma extend_left_bounds:
  "alo \<le> bi \<Longrightarrow> extend_left a b alo blo (bi, bj, bs) = (i, j, k) \<Longrightarrow>
   alo \<le> i \<and> i + k = bi + bs"
proof (induction a b alo blo "(bi, bj, bs)" arbitrary: bi bj bs rule: extend_left.induct)
  case (1 a b alo blo besti bestj bestsize)
  show ?case
  proof (cases "besti > alo \<and> bestj > blo \<and> a ! (besti - 1) = b ! (bestj - 1)")
    case True
    with "1.prems" have "extend_left a b alo blo (besti - 1, bestj - 1, bestsize + 1) = (i, j, k)"
      by simp
    moreover from True have "alo \<le> besti - 1" by linarith
    ultimately have "alo \<le> i \<and> i + k = besti - 1 + (bestsize + 1)"
      using "1.hyps"[OF True] by blast
    with True show ?thesis by simp
  next
    case False
    with "1.prems" show ?thesis by auto
  qed
qed

lemma extend_right_bounds:
  "bi + bs \<le> ahi \<Longrightarrow> extend_right a b ahi bhi (bi, bj, bs) = (i, j, k) \<Longrightarrow>
   i = bi \<and> i + k \<le> ahi"
proof (induction a b ahi bhi "(bi, bj, bs)" arbitrary: bi bj bs rule: extend_right.induct)
  case (1 a b ahi bhi besti bestj bestsize)
  show ?case
  proof (cases "besti + bestsize < ahi \<and> bestj + bestsize < bhi \<and>
                a ! (besti + bestsize) = b ! (bestj + bestsize)")
    case True
    with "1.prems" have "extend_right a b ahi bhi (besti, bestj, bestsize + 1) = (i, j, k)"
      by simp
    moreover from True have "besti + (bestsize + 1) \<le> ahi" by simp
    ultimately have "i = besti \<and> i + k \<le> ahi"
      using "1.hyps"[OF True] by blast
    then show ?thesis by simp
  next
    case False
    with "1.prems" show ?thesis by auto
  qed
qed

lemma find_longest_match_bounds:
  assumes "alo \<le> ahi" and "find_longest_match a b alo ahi blo bhi = (i, j, k)"
  shows "alo \<le> i \<and> i + k \<le> ahi"
proof -
  have "in_region alo alo ((\<lambda>_. 0), (alo, blo, 0))" by (simp add: in_region_def)
  from region_rows[OF this le_refl assms(1)]
  have w: "in_region alo ahi (flm_rows a b blo bhi [alo ..< ahi] ((\<lambda>_. 0), (alo, blo, 0)))" .
  obtain j2len bi bj bs where
    r: "flm_rows a b blo bhi [alo ..< ahi] ((\<lambda>_. 0), (alo, blo, 0)) = (j2len, (bi, bj, bs))"
    by (metis prod.exhaust)
  from w r have b: "alo \<le> bi" "bi + bs \<le> ahi" by (simp_all add: in_region_def)
  obtain i1 j1 k1 where l: "extend_left a b alo blo (bi, bj, bs) = (i1, j1, k1)"
    by (metis prod.exhaust)
  from extend_left_bounds[OF b(1) l] b(2) have l': "alo \<le> i1" "i1 + k1 \<le> ahi" by simp_all
  from assms(2) r l have "extend_right a b ahi bhi (i1, j1, k1) = (i, j, k)"
    by (simp add: find_longest_match_def)
  from extend_right_bounds[OF l'(2) this] l'(1) show ?thesis by simp
qed

lemma matching_sizes_fuel:
  assumes "alo \<le> ahi" and "ahi - alo < f1" and "ahi - alo < f2"
  shows "matching_sizes f1 a b alo ahi blo bhi = matching_sizes f2 a b alo ahi blo bhi"
  using assms
proof (induction f1 arbitrary: f2 alo ahi blo bhi)
  case 0
  then show ?case by simp
next
  case (Suc m)
  from Suc.prems(3) obtain m2 where f2: "f2 = Suc m2" by (cases f2) auto
  obtain i j k where flm: "find_longest_match a b alo ahi blo bhi = (i, j, k)"
    by (metis prod.exhaust)
  from find_longest_match_bounds[OF Suc.prems(1) flm] have bd: "alo \<le> i" "i + k \<le> ahi"
    by simp_all
  show ?case
  proof (cases "k = 0")
    case True
    with flm f2 show ?thesis by simp
  next
    case False
    have left: "matching_sizes m a b alo i blo j = matching_sizes m2 a b alo i blo j"
      using bd False Suc.prems f2 by (intro Suc.IH) auto
    have right: "matching_sizes m a b (i + k) ahi (j + k) bhi =
                 matching_sizes m2 a b (i + k) ahi (j + k) bhi"
      using bd False Suc.prems f2 by (intro Suc.IH) auto
    from flm f2 False left right show ?thesis by simp
  qed
qed

lemma ratio_fuel:
  assumes "length a < fuel"
  shows "matching_sizes fuel a b 0 (length a) 0 (length b) =
         matching_sizes (Suc (length a)) a b 0 (length a) 0 (length b)"
  using assms by (intro matching_sizes_fuel) simp_all

end
